theory Spec2Isabelle
  imports
    Complex_Main
    "HOL-Library.Word"
    "HOL-Library.Finite_Map"
    "HOL-Library.Monad_Syntax"
begin

unbundle bit_operations_syntax

chapter \<open>KET speaking preparation: session orchestration and speech I/O\<close>

text \<open>
  A shallow embedding of \<^verbatim>\<open>src/services/geminiService.ts\<close>,
  \<^verbatim>\<open>src/components/TestSession.tsx\<close> and the \<^verbatim>\<open>StudentBox\<close> component.
  JavaScript strings are modelled as \<^typ>\<open>string\<close>; a \<^typ>\<open>char\<close> stands for a code unit
  below 256. An operation of the platform that may throw returns an \<^typ>\<open>'a option\<close>, with
  \<^const>\<open>None\<close> for the exception.
\<close>

section \<open>The audio container (\<^verbatim>\<open>createWavBlob\<close>)\<close>

subsection \<open>Byte buffers and the \<^verbatim>\<open>DataView\<close> setters\<close>

type_synonym byte = "8 word"

text \<open>
  \<^verbatim>\<open>view.setUint8(offset, v)\<close>, \<^verbatim>\<open>view.setUint16(offset, v, true)\<close> and
  \<^verbatim>\<open>view.setUint32(offset, v, true)\<close>: the value is reduced modulo the width of the field
  and stored little-endian; a write that does not fit in the buffer raises \<^verbatim>\<open>RangeError\<close>.
\<close>

definition write_bytes :: "nat \<Rightarrow> byte list \<Rightarrow> byte list \<Rightarrow> byte list option" where
  "write_bytes offset bs buf =
     (if offset + length bs \<le> length buf
      then Some (take offset buf @ bs @ drop (offset + length bs) buf)
      else None)"

definition le16 :: "16 word \<Rightarrow> byte list" where
  "le16 w = [ucast w, ucast (drop_bit 8 w)]"

definition le32 :: "32 word \<Rightarrow> byte list" where
  "le32 w = [ucast w, ucast (drop_bit 8 w), ucast (drop_bit 16 w), ucast (drop_bit 24 w)]"

definition setUint8 :: "nat \<Rightarrow> nat \<Rightarrow> byte list \<Rightarrow> byte list option" where
  "setUint8 offset v buf = write_bytes offset [of_nat v] buf"

definition setUint16 :: "nat \<Rightarrow> nat \<Rightarrow> byte list \<Rightarrow> byte list option" where
  "setUint16 offset v buf = write_bytes offset (le16 (of_nat v)) buf"

definition setUint32 :: "nat \<Rightarrow> nat \<Rightarrow> byte list \<Rightarrow> byte list option" where
  "setUint32 offset v buf = write_bytes offset (le32 (of_nat v)) buf"

text \<open>The loop of \<^verbatim>\<open>writeString\<close>: one \<^verbatim>\<open>setUint8\<close> per character code.\<close>

fun writeString :: "nat \<Rightarrow> string \<Rightarrow> byte list \<Rightarrow> byte list option" where
  "writeString offset [] buf = Some buf"
| "writeString offset (c # cs) buf =
     do { buf' \<leftarrow> setUint8 offset (of_char c) buf; writeString (Suc offset) cs buf' }"

text \<open>\<^verbatim>\<open>new Uint8Array(buffer, headerSize).set(pcmData)\<close>.\<close>

definition typed_array_set :: "nat \<Rightarrow> byte list \<Rightarrow> byte list \<Rightarrow> byte list option" where
  "typed_array_set byteOffset source buf = write_bytes byteOffset source buf"

subsection \<open>\<^verbatim>\<open>createWavBlob\<close>\<close>

record Blob =
  blob_bytes :: "byte list"
  blob_type :: string

definition SAMPLE_RATE :: nat where
  "SAMPLE_RATE = 24000"

definition createWavBlob :: "byte list \<Rightarrow> Blob option" where
  "createWavBlob pcmData =
     (let numChannels = 1;
          bitsPerSample = 16;
          byteRate = (SAMPLE_RATE * numChannels * bitsPerSample) div 8;
          blockAlign = (numChannels * bitsPerSample) div 8;
          dataSize = length pcmData;
          headerSize = 44;
          buffer = replicate (headerSize + dataSize) (0 :: byte)
      in do {
        b \<leftarrow> writeString 0 ''RIFF'' buffer;
        b \<leftarrow> setUint32 4 (36 + dataSize) b;
        b \<leftarrow> writeString 8 ''WAVE'' b;
        b \<leftarrow> writeString 12 ''fmt '' b;
        b \<leftarrow> setUint32 16 16 b;
        b \<leftarrow> setUint16 20 1 b;
        b \<leftarrow> setUint16 22 numChannels b;
        b \<leftarrow> setUint32 24 SAMPLE_RATE b;
        b \<leftarrow> setUint32 28 byteRate b;
        b \<leftarrow> setUint16 32 blockAlign b;
        b \<leftarrow> setUint16 34 bitsPerSample b;
        b \<leftarrow> writeString 36 ''data'' b;
        b \<leftarrow> setUint32 40 dataSize b;
        b \<leftarrow> typed_array_set headerSize pcmData b;
        Some \<lparr>blob_bytes = b, blob_type = ''audio/wav''\<rparr>
      })"

text \<open>Reading a field back: the bytes \<open>offset .. offset + n - 1\<close>, and their little-endian value.\<close>

definition bytes_at :: "nat \<Rightarrow> nat \<Rightarrow> byte list \<Rightarrow> byte list" where
  "bytes_at offset n buf = take n (drop offset buf)"

fun le_value :: "byte list \<Rightarrow> nat" where
  "le_value [] = 0"
| "le_value (b # bs) = unat b + 256 * le_value bs"

definition ascii :: "string \<Rightarrow> byte list" where
  "ascii s = map of_char s"

text \<open>The 44-byte header for a payload of \<open>dataSize\<close> bytes, written out field by field.\<close>

definition wav_header :: "nat \<Rightarrow> byte list" where
  "wav_header dataSize =
     ascii ''RIFF'' @ le32 (of_nat (36 + dataSize)) @ ascii ''WAVE'' @
     ascii ''fmt '' @ le32 16 @ le16 1 @ le16 1 @ le32 24000 @ le32 48000 @ le16 2 @ le16 16 @
     ascii ''data'' @ le32 (of_nat dataSize)"

section \<open>Transcript assembly (\<^verbatim>\<open>StudentBox\<close>)\<close>

subsection \<open>Strings\<close>

text \<open>
  \<^verbatim>\<open>String.prototype.trim\<close> removes white space and line terminators from both ends. Of the
  code units below 256 these are TAB, LF, VT, FF, CR, SPACE and NBSP.
\<close>

definition isWhiteSpace :: "char \<Rightarrow> bool" where
  "isWhiteSpace c =
     (c \<in> {CHR 0x09, CHR 0x0A, CHR 0x0B, CHR 0x0C, CHR 0x0D, CHR 0x20, CHR 0xA0})"

definition trim :: "string \<Rightarrow> string" where
  "trim s = rev (dropWhile isWhiteSpace (rev (dropWhile isWhiteSpace s)))"

subsection \<open>Component state\<close>

text \<open>One entry of \<^verbatim>\<open>event.results\<close>: the transcript of its first alternative and \<^verbatim>\<open>isFinal\<close>.\<close>

record speech_result =
  result_transcript :: string
  isFinal :: bool

text \<open>The recognition object built by \<^verbatim>\<open>getRecognition\<close>.\<close>

record recognition =
  continuous :: bool
  interimResults :: bool
  lang :: string
  maxAlternatives :: nat

definition new_recognition :: recognition where
  "new_recognition =
     \<lparr>continuous = False, interimResults = True, lang = ''en-US'', maxAlternatives = 1\<rparr>"

text \<open>The \<^verbatim>\<open>useState\<close> and \<^verbatim>\<open>useRef\<close> cells of one \<^verbatim>\<open>StudentBox\<close>.\<close>

record student_box =
  isRecording :: bool
  transcript :: string
  interimTranscript :: string
  errorMsg :: "string option"
  isManualMode :: bool
  manualText :: string
  recognitionInstanceRef :: "recognition option"
  fullTranscriptRef :: string
  isMountedRef :: bool

text \<open>
  What the user agent reports when the component mounts: the outcome of the three tests on
  \<^verbatim>\<open>navigator.userAgent\<close>, whether a \<^verbatim>\<open>SpeechRecognition\<close> constructor exists, and
  whether the detection itself throws.
\<close>

record platform =
  ua_isIOS :: bool
  ua_safari :: bool
  ua_otherBrowser :: bool
  hasSpeechRecognition :: bool
  detection_throws :: bool

definition initial_box :: student_box where
  "initial_box =
     \<lparr>isRecording = False, transcript = [], interimTranscript = [], errorMsg = None,
      isManualMode = False, manualText = [], recognitionInstanceRef = None,
      fullTranscriptRef = [], isMountedRef = False\<rparr>"

text \<open>The mount effect (\<^verbatim>\<open>useEffect\<close> on \<^verbatim>\<open>questionId\<close>), run on a fresh component.\<close>

definition mount_effect :: "platform \<Rightarrow> student_box \<Rightarrow> student_box" where
  "mount_effect pf box =
     (let box = box\<lparr>isMountedRef := True, fullTranscriptRef := [], transcript := [],
                     interimTranscript := [], errorMsg := None, isRecording := False\<rparr>;
          isSafari = (ua_isIOS pf \<and> ua_safari pf \<and> \<not> ua_otherBrowser pf)
      in if detection_throws pf then box\<lparr>isManualMode := True\<rparr>
         else if ua_isIOS pf \<and> \<not> isSafari
           then box\<lparr>isManualMode := True,
                     errorMsg := Some ''Browser not supported. Please use Safari on iOS or Chrome on Android.''\<rparr>
         else if \<not> hasSpeechRecognition pf
           then box\<lparr>isManualMode := True, errorMsg := Some ''Voice not supported. Manual mode.''\<rparr>
         else box)"

definition mount_box :: "platform \<Rightarrow> student_box" where
  "mount_box pf = mount_effect pf initial_box"

text \<open>
  The cleanup of the effect when the component unmounts. The unsupported-browser branch of the
  effect leaves through a bare \<^verbatim>\<open>return\<close>, so no cleanup is registered there.
\<close>

definition unmount_box :: "platform \<Rightarrow> student_box \<Rightarrow> student_box" where
  "unmount_box pf box =
     (if \<not> detection_throws pf \<and> ua_isIOS pf
          \<and> \<not> (ua_isIOS pf \<and> ua_safari pf \<and> \<not> ua_otherBrowser pf)
      then box
      else box\<lparr>isMountedRef := False\<rparr>)"

subsection \<open>Recognition callbacks\<close>

text \<open>The loop of \<^verbatim>\<open>recognition.onresult\<close> over \<^verbatim>\<open>event.results\<close>, from index 0.\<close>

fun result_loop :: "speech_result list \<Rightarrow> string \<times> string \<Rightarrow> string \<times> string" where
  "result_loop [] acc = acc"
| "result_loop (r # rs) (newFinal, newInterim) =
     (if isFinal r then result_loop rs (newFinal @ result_transcript r, newInterim)
      else result_loop rs (newFinal, newInterim @ result_transcript r))"

definition onresult :: "speech_result list \<Rightarrow> student_box \<Rightarrow> student_box" where
  "onresult event_results box =
     (if \<not> isMountedRef box then box
      else
        let (newFinal, newInterim) = result_loop event_results ([], []);
            box = (if newFinal \<noteq> []
                   then let full = trim (fullTranscriptRef box @ '' '' @ newFinal)
                        in box\<lparr>fullTranscriptRef := full, transcript := full\<rparr>
                   else box)
        in box\<lparr>interimTranscript := newInterim\<rparr>)"

definition onstart :: "student_box \<Rightarrow> student_box" where
  "onstart box =
     (if isMountedRef box then box\<lparr>isRecording := True, errorMsg := None\<rparr> else box)"

definition onerror :: "string \<Rightarrow> student_box \<Rightarrow> student_box" where
  "onerror code box =
     (if \<not> isMountedRef box then box
      else if code = ''no-speech'' \<or> code = ''aborted'' then box\<lparr>isRecording := False\<rparr>
      else
        let box = box\<lparr>isRecording := False\<rparr>
        in if code = ''not-allowed'' then box\<lparr>errorMsg := Some ''Mic blocked. Check settings.''\<rparr>
           else if code = ''audio-capture'' then box\<lparr>errorMsg := Some ''No mic found.''\<rparr>
           else if code = ''network'' then box\<lparr>errorMsg := Some ''Network error.''\<rparr>
           else box\<lparr>errorMsg := Some (''Error: '' @ code)\<rparr>)"

definition onend :: "student_box \<Rightarrow> student_box" where
  "onend box = (if \<not> isMountedRef box then box else box\<lparr>isRecording := False\<rparr>)"

subsection \<open>User actions\<close>

text \<open>
  What a handler asks of its surroundings: calls on the recognition object, the module-level
  \<^verbatim>\<open>stopAllAudio\<close>, and the \<^verbatim>\<open>onAnswerComplete\<close> callback of the parent.
\<close>

datatype box_effect =
    RecognitionStart
  | RecognitionStop
  | RecognitionAbort
  | StopAllAudio
  | AnswerComplete string

text \<open>
  \<^verbatim>\<open>getRecognition\<close>: the existing instance, or a new one when the constructor exists and
  does not throw.
\<close>

definition getRecognition :: "platform \<Rightarrow> bool \<Rightarrow> student_box \<Rightarrow> student_box \<times> recognition option" where
  "getRecognition pf constructor_throws box =
     (case recognitionInstanceRef box of
        Some r \<Rightarrow> (box, Some r)
      | None \<Rightarrow>
          if \<not> hasSpeechRecognition pf then (box, None)
          else if constructor_throws then (box, None)
          else (box\<lparr>recognitionInstanceRef := Some new_recognition\<rparr>, Some new_recognition))"

definition handleMicClick :: "platform \<Rightarrow> bool \<Rightarrow> bool \<Rightarrow> student_box \<Rightarrow> student_box \<times> box_effect list" where
  "handleMicClick pf constructor_throws start_throws box =
     (if isRecording box
      then (box, if recognitionInstanceRef box \<noteq> None then [RecognitionStop] else [])
      else
        let box = box\<lparr>errorMsg := None\<rparr>;
            (box, recognition) = getRecognition pf constructor_throws box
        in case recognition of
             None \<Rightarrow> (box\<lparr>isManualMode := True\<rparr>, [StopAllAudio])
           | Some r \<Rightarrow>
               let box = box\<lparr>interimTranscript := []\<rparr>
               in if start_throws
                  then (box\<lparr>isRecording := False, isManualMode := True,
                             errorMsg := Some ''Device error. Switched to manual.''\<rparr>,
                        [StopAllAudio, RecognitionStart])
                  else (box, [StopAllAudio, RecognitionStart]))"

definition handleSubmit :: "student_box \<Rightarrow> student_box \<times> box_effect list" where
  "handleSubmit box =
     (let finalText = fullTranscriptRef box;
          finalText = (if isManualMode box then manualText box else finalText);
          finalText = (if interimTranscript box \<noteq> [] \<and> \<not> isManualMode box
                       then trim (finalText @ '' '' @ interimTranscript box)
                       else finalText)
      in if trim finalText = []
         then (box\<lparr>errorMsg := Some ''Please say something first.''\<rparr>, [])
         else (box,
               (if isRecording box \<and> recognitionInstanceRef box \<noteq> None
                then [RecognitionAbort] else [])
               @ [AnswerComplete (trim finalText)]))"

text \<open>
  Everything that can happen to a box: the four buttons and the text area, and the callbacks of
  the recognition engine. A click on the microphone carries whether the constructor and
  \<^verbatim>\<open>start()\<close> throw this time.
\<close>

datatype box_event =
    MicClick bool bool
  | Submit
  | TypeText string
  | ToggleManual
  | OnStart
  | OnResult "speech_result list"
  | OnError string
  | OnEnd

fun box_step :: "platform \<Rightarrow> box_event \<Rightarrow> student_box \<Rightarrow> student_box \<times> box_effect list" where
  "box_step pf (MicClick constructor_throws start_throws) box =
     handleMicClick pf constructor_throws start_throws box"
| "box_step pf Submit box = handleSubmit box"
| "box_step pf (TypeText s) box = (box\<lparr>manualText := s\<rparr>, [])"
| "box_step pf ToggleManual box = (box\<lparr>isManualMode := \<not> isManualMode box\<rparr>, [])"
| "box_step pf OnStart box = (onstart box, [])"
| "box_step pf (OnResult event_results) box = (onresult event_results box, [])"
| "box_step pf (OnError code) box = (onerror code box, [])"
| "box_step pf OnEnd box = (onend box, [])"

text \<open>The props a box is rendered with.\<close>

record box_props =
  isActive :: bool
  hasAnswered :: bool
  disabled :: bool

definition hasText :: "student_box \<Rightarrow> bool" where
  "hasText box =
     (if isManualMode box then length (manualText box) > 0
      else length (transcript box) > 0 \<or> length (interimTranscript box) > 0)"

text \<open>
  Which controls the rendered box offers. The mode buttons exist while the box is active and
  unanswered; the text area exists in manual mode; the footer shows a dead button once answered,
  the manual submit button in manual mode (it carries no \<^verbatim>\<open>disabled\<close> attribute), and
  otherwise the microphone and submit buttons with their \<^verbatim>\<open>disabled\<close> attributes.
  Callbacks of the engine need an instance to come from.
\<close>

fun box_offers :: "box_props \<Rightarrow> student_box \<Rightarrow> box_event \<Rightarrow> bool" where
  "box_offers props box ToggleManual = (isActive props \<and> \<not> hasAnswered props)"
| "box_offers props box (TypeText s) = (\<not> hasAnswered props \<and> isManualMode box)"
| "box_offers props box Submit =
     (\<not> hasAnswered props \<and>
      (isManualMode box \<or>
       \<not> (disabled props \<or> (\<not> hasText box \<and> interimTranscript box = []))))"
| "box_offers props box (MicClick c t) =
     (\<not> hasAnswered props \<and> \<not> isManualMode box \<and> \<not> disabled props)"
| "box_offers props box OnStart = (recognitionInstanceRef box \<noteq> None)"
| "box_offers props box (OnResult rs) = (recognitionInstanceRef box \<noteq> None)"
| "box_offers props box (OnError code) = (recognitionInstanceRef box \<noteq> None)"
| "box_offers props box OnEnd = (recognitionInstanceRef box \<noteq> None)"

subsection \<open>The transcript as the specification words it\<close>

text \<open>A recognition session delivers its result batches one after the other.\<close>

definition onresults :: "speech_result list list \<Rightarrow> student_box \<Rightarrow> student_box" where
  "onresults batches box = foldl (\<lambda>b batch. onresult batch b) box batches"

text \<open>All final segments seen so far, in order of arrival.\<close>

definition final_segments :: "speech_result list list \<Rightarrow> string list" where
  "final_segments batches =
     concat (map (\<lambda>batch. map result_transcript (filter isFinal batch)) batches)"

text \<open>
  From the specification, not from the source: the cumulative final transcript is the
  concatenation of the final segments, space-joined and trimmed.
\<close>

fun space_joined :: "string list \<Rightarrow> string" where
  "space_joined [] = []"
| "space_joined [x] = x"
| "space_joined (x # y # zs) = x @ '' '' @ space_joined (y # zs)"

definition spec_final_transcript :: "string list \<Rightarrow> string" where
  "spec_final_transcript segments = trim (space_joined segments)"

text \<open>
  From the specification, not from the source: what \<open>submit\<close> computes, namely the final
  transcript concatenated with any pending interim text, or the typed buffer in manual mode,
  trimmed.
\<close>

definition spec_submit_text :: "student_box \<Rightarrow> string" where
  "spec_submit_text box =
     trim (if isManualMode box then manualText box
           else if interimTranscript box = [] then fullTranscriptRef box
           else fullTranscriptRef box @ '' '' @ interimTranscript box)"

text \<open>A segment that ends in a character that is not white space.\<close>

definition ends_in_text :: "string \<Rightarrow> bool" where
  "ends_in_text s = (s \<noteq> [] \<and> \<not> isWhiteSpace (last s))"

text \<open>A string that is not empty and has no white space at either end.\<close>

definition clean_segment :: "string \<Rightarrow> bool" where
  "clean_segment s = (s \<noteq> [] \<and> \<not> isWhiteSpace (hd s) \<and> \<not> isWhiteSpace (last s))"

section \<open>Plans, session records and reports (\<^verbatim>\<open>types.ts\<close>)\<close>

datatype part = Part_1 | Part_2

datatype target = Tom | Bella | Both

record Question =
  question_id :: string
  question_text :: string
  question_part :: part
  question_target :: target

record DailyPlan =
  day :: int
  topic :: string
  questions :: "Question list"

text \<open>\<^verbatim>\<open>Record<string, string>\<close>: a finite map from question ids to transcripts.\<close>

record StudentSessionData =
  answers :: "(string, string) fmap"

record SessionData =
  studentA :: StudentSessionData
  studentB :: StudentSessionData

record EvaluationResult =
  score :: real
  feedback :: string
  goodPoints :: "string list"
  badPoints :: "string list"
  suggestions :: "string list"

record FullReport =
  studentA_result :: EvaluationResult
  studentB_result :: EvaluationResult
  generalFeedback :: string

section \<open>Evaluation (\<^verbatim>\<open>evaluateSession\<close>)\<close>

text \<open>
  How the remote model answers a request: the call rejects, the response has no text, the
  text is not JSON, or it parses to a report.
\<close>

datatype generate_response =
    RequestRejected
  | EmptyText
  | MalformedJson
  | ReportText FullReport

text \<open>
  What a call of \<^verbatim>\<open>evaluateSession\<close> does: the requests it sends to the remote
  evaluator, and the value its promise settles with (\<^const>\<open>None\<close> when it rejects).
\<close>

record evaluation =
  remote_requests :: "(DailyPlan \<times> SessionData) list"
  settles_with :: "FullReport option"

definition no_answers_result :: EvaluationResult where
  "no_answers_result =
     \<lparr>score = 0, feedback = ''No answers recorded.'', goodPoints = [],
      badPoints = [''No speech input detected.''],
      suggestions = [''Check microphone settings.'']\<rparr>"

definition no_answers_report :: FullReport where
  "no_answers_report =
     \<lparr>studentA_result = no_answers_result, studentB_result = no_answers_result,
      generalFeedback = ''Session ended without any recorded answers.''\<rparr>"

definition evaluateSession :: "DailyPlan \<Rightarrow> SessionData \<Rightarrow> generate_response \<Rightarrow> evaluation" where
  "evaluateSession plan sessionData response =
     (let hasTomAnswers = fcard (fmdom (answers (studentA sessionData))) > 0;
          hasBellaAnswers = fcard (fmdom (answers (studentB sessionData))) > 0
      in if \<not> hasTomAnswers \<and> \<not> hasBellaAnswers
         then \<lparr>remote_requests = [], settles_with = Some no_answers_report\<rparr>
         else \<lparr>remote_requests = [(plan, sessionData)],
               settles_with =
                 (case response of
                    RequestRejected \<Rightarrow> None
                  | EmptyText \<Rightarrow> None
                  | MalformedJson \<Rightarrow> None
                  | ReportText report \<Rightarrow> Some report)\<rparr>)"

section \<open>The turn-taking state machine (\<^verbatim>\<open>TestSession\<close>)\<close>

datatype phase = examiner_speaking | student_a_turn | student_b_turn | evaluating | results

datatype student = StudentA | StudentB

text \<open>
  The state cells of \<^verbatim>\<open>TestSession\<close> that take part in turn taking, the two boxes it
  renders, and the evaluation in flight: the record \<^verbatim>\<open>finishSession\<close> handed to
  \<^verbatim>\<open>evaluateSession\<close>, until the promise settles.
\<close>

record test_session =
  currentQuestionIdx :: nat
  showQuestionText :: bool
  sessionData :: SessionData
  phase :: phase
  report :: "FullReport option"
  isFinishing :: bool
  confirmExit :: bool
  tomBox :: student_box
  bellaBox :: student_box
  pendingEvaluation :: "SessionData option"

definition initial_session :: "platform \<Rightarrow> test_session" where
  "initial_session pf =
     \<lparr>currentQuestionIdx = 0, showQuestionText = False,
      sessionData = \<lparr>studentA = \<lparr>answers = fmempty\<rparr>, studentB = \<lparr>answers = fmempty\<rparr>\<rparr>,
      phase = examiner_speaking, report = None, isFinishing = False, confirmExit = False,
      tomBox = mount_box pf, bellaBox = mount_box pf,
      pendingEvaluation = None\<rparr>"

text \<open>\<^verbatim>\<open>plan.questions[currentQuestionIdx]\<close>, \<^const>\<open>None\<close> for \<^verbatim>\<open>undefined\<close>.\<close>

definition currentQuestion :: "DailyPlan \<Rightarrow> test_session \<Rightarrow> Question option" where
  "currentQuestion plan s =
     (if currentQuestionIdx s < length (questions plan)
      then Some (questions plan ! currentQuestionIdx s) else None)"

definition answers_of :: "student \<Rightarrow> SessionData \<Rightarrow> (string, string) fmap" where
  "answers_of who d = (case who of StudentA \<Rightarrow> answers (studentA d) | StudentB \<Rightarrow> answers (studentB d))"

text \<open>\<^verbatim>\<open>!!savedAnswer\<close>: the answer is present and not the empty string.\<close>

definition truthy :: "string option \<Rightarrow> bool" where
  "truthy v = (case v of None \<Rightarrow> False | Some t \<Rightarrow> t \<noteq> [])"

definition fallback_result :: EvaluationResult where
  "fallback_result =
     \<lparr>score = 0, feedback = ''Incomplete data or connection error.'', goodPoints = [],
      badPoints = [], suggestions = [''Check internet connection.'']\<rparr>"

definition fallback_report :: FullReport where
  "fallback_report =
     \<lparr>studentA_result = fallback_result, studentB_result = fallback_result,
      generalFeedback = ''Session ended. We could not generate a full AI report, possibly due to network issues or no audio data recorded.''\<rparr>"

text \<open>
  \<^verbatim>\<open>finishSession\<close> up to its \<^verbatim>\<open>await\<close>. The record passed to
  \<^verbatim>\<open>evaluateSession\<close> is the \<^verbatim>\<open>sessionData\<close> of the render the handler was created in,
  given here as \<open>closure_data\<close>. Leaving the session view unmounts both boxes.
\<close>

definition finishSession_begin :: "platform \<Rightarrow> SessionData \<Rightarrow> test_session \<Rightarrow> test_session" where
  "finishSession_begin pf closure_data s =
     s\<lparr>phase := evaluating, isFinishing := True,
       pendingEvaluation := Some closure_data,
       tomBox := unmount_box pf (tomBox s), bellaBox := unmount_box pf (bellaBox s)\<rparr>"

text \<open>The rest of \<^verbatim>\<open>finishSession\<close>, once the promise has settled.\<close>

definition finishSession_settle :: "DailyPlan \<Rightarrow> generate_response \<Rightarrow> test_session \<Rightarrow> test_session" where
  "finishSession_settle plan response s =
     (case pendingEvaluation s of
        None \<Rightarrow> s
      | Some closure_data \<Rightarrow>
          let s = (case settles_with (evaluateSession plan closure_data response) of
                     Some result \<Rightarrow> s\<lparr>report := Some result, phase := results\<rparr>
                   | None \<Rightarrow> s\<lparr>report := Some fallback_report, phase := results\<rparr>)
          in s\<lparr>isFinishing := False, pendingEvaluation := None\<rparr>)"

text \<open>
  \<^verbatim>\<open>goToNextQuestion\<close>. The boxes are keyed by the question id: they are mounted afresh when
  the id of the next question differs, and kept when it is the same.
\<close>

definition goToNextQuestion :: "DailyPlan \<Rightarrow> platform \<Rightarrow> SessionData \<Rightarrow> test_session \<Rightarrow> test_session" where
  "goToNextQuestion plan pf closure_data s =
     (if currentQuestionIdx s < length (questions plan) - 1
      then
        let next = Suc (currentQuestionIdx s);
            same_key = (question_id (questions plan ! next)
                          = question_id (questions plan ! currentQuestionIdx s));
            s = s\<lparr>currentQuestionIdx := next, showQuestionText := False,
                   phase := examiner_speaking\<rparr>
        in if same_key then s else s\<lparr>tomBox := mount_box pf, bellaBox := mount_box pf\<rparr>
      else finishSession_begin pf closure_data s)"

definition handleExaminerDone :: "test_session \<Rightarrow> test_session" where
  "handleExaminerDone s = s\<lparr>phase := student_a_turn\<rparr>"

definition handleStudentAComplete :: "Question \<Rightarrow> string \<Rightarrow> test_session \<Rightarrow> test_session" where
  "handleStudentAComplete q text s =
     (let prev = sessionData s
      in s\<lparr>sessionData :=
             prev\<lparr>studentA := (studentA prev)\<lparr>answers :=
                      fmupd (question_id q) text (answers (studentA prev))\<rparr>\<rparr>,
           phase := student_b_turn\<rparr>)"

definition handleStudentBComplete :: "DailyPlan \<Rightarrow> platform \<Rightarrow> Question \<Rightarrow> string \<Rightarrow> test_session \<Rightarrow> test_session" where
  "handleStudentBComplete plan pf q text s =
     (let prev = sessionData s;
          s' = s\<lparr>sessionData :=
                  prev\<lparr>studentB := (studentB prev)\<lparr>answers :=
                           fmupd (question_id q) text (answers (studentB prev))\<rparr>\<rparr>\<rparr>
      in goToNextQuestion plan pf prev s')"

definition handleEarlyFinish :: "platform \<Rightarrow> test_session \<Rightarrow> test_session" where
  "handleEarlyFinish pf s =
     (if isFinishing s then s
      else if \<not> confirmExit s then s\<lparr>confirmExit := True\<rparr>
      else finishSession_begin pf (sessionData s) s)"

text \<open>
  The session view (header, examiner area and both boxes) is rendered unless the report or the
  spinner is shown; rendering it reads \<^verbatim>\<open>currentQuestion.id\<close>, so there must be a current
  question.
\<close>

definition session_view :: "DailyPlan \<Rightarrow> test_session \<Rightarrow> Question option" where
  "session_view plan s =
     (if phase s = results \<and> report s \<noteq> None then None
      else if phase s = evaluating then None
      else currentQuestion plan s)"

definition turn_of :: "student \<Rightarrow> phase" where
  "turn_of who = (case who of StudentA \<Rightarrow> student_a_turn | StudentB \<Rightarrow> student_b_turn)"

definition box_of :: "student \<Rightarrow> test_session \<Rightarrow> student_box" where
  "box_of who s = (case who of StudentA \<Rightarrow> tomBox s | StudentB \<Rightarrow> bellaBox s)"

definition set_box :: "student \<Rightarrow> student_box \<Rightarrow> test_session \<Rightarrow> test_session" where
  "set_box who box s = (case who of StudentA \<Rightarrow> s\<lparr>tomBox := box\<rparr> | StudentB \<Rightarrow> s\<lparr>bellaBox := box\<rparr>)"

definition props_of :: "student \<Rightarrow> Question \<Rightarrow> test_session \<Rightarrow> box_props" where
  "props_of who q s =
     \<lparr>isActive = (phase s = turn_of who),
      hasAnswered = truthy (fmlookup (answers_of who (sessionData s)) (question_id q)),
      disabled = (phase s \<noteq> turn_of who)\<rparr>"

text \<open>
  The parent's reaction to the effects of a box handler: only \<^verbatim>\<open>onAnswerComplete\<close> reaches
  the state machine; the other effects act on the recognition engine and the audio module.
\<close>

fun deliver :: "DailyPlan \<Rightarrow> platform \<Rightarrow> student \<Rightarrow> Question \<Rightarrow> box_effect list \<Rightarrow> test_session \<Rightarrow> test_session" where
  "deliver plan pf who q [] s = s"
| "deliver plan pf who q (AnswerComplete text # es) s =
     deliver plan pf who q es
       (case who of
          StudentA \<Rightarrow> handleStudentAComplete q text s
        | StudentB \<Rightarrow> handleStudentBComplete plan pf q text s)"
| "deliver plan pf who q (e # es) s = deliver plan pf who q es s"

text \<open>
  The events of a session: the examiner-done button, an event of one of the two boxes, the
  finish button and the expiry of its three-second confirmation, and the settling of the
  evaluation. The examiner-done button is further hidden while a prompt is loading or blocked;
  those two flags are not modelled, so the machine below allows the button whenever the examiner
  phase is active.
\<close>

datatype session_event =
    ExaminerDone
  | Box student box_event
  | EarlyFinish
  | ConfirmExpired
  | EvaluationSettles generate_response

fun session_step :: "DailyPlan \<Rightarrow> platform \<Rightarrow> session_event \<Rightarrow> test_session \<Rightarrow> test_session" where
  "session_step plan pf ExaminerDone s =
     (case session_view plan s of
        None \<Rightarrow> s
      | Some q \<Rightarrow> if phase s = examiner_speaking then handleExaminerDone s else s)"
| "session_step plan pf (Box who e) s =
     (case session_view plan s of
        None \<Rightarrow> s
      | Some q \<Rightarrow>
          if box_offers (props_of who q s) (box_of who s) e
          then let (box, effects) = box_step pf e (box_of who s)
               in deliver plan pf who q effects (set_box who box s)
          else s)"
| "session_step plan pf EarlyFinish s =
     (case session_view plan s of
        None \<Rightarrow> s
      | Some q \<Rightarrow> handleEarlyFinish pf s)"
| "session_step plan pf ConfirmExpired s = s\<lparr>confirmExit := False\<rparr>"
| "session_step plan pf (EvaluationSettles response) s = finishSession_settle plan response s"

definition run_session :: "DailyPlan \<Rightarrow> platform \<Rightarrow> session_event list \<Rightarrow> test_session" where
  "run_session plan pf events = foldl (\<lambda>s e. session_step plan pf e s) (initial_session pf) events"

text \<open>Every recorded answer is a non-empty string.\<close>

definition answers_nonempty :: "test_session \<Rightarrow> bool" where
  "answers_nonempty s =
     (\<forall>who q. fmlookup (answers_of who (sessionData s)) q \<noteq> Some [])"

text \<open>
  The invariant behind the turn order: B's recorded answers are among A's; in B's turn A has
  answered the current question; and B's box is in manual mode outside B's turn only when B
  has answered the current question.
\<close>

definition turn_order_inv :: "DailyPlan \<Rightarrow> test_session \<Rightarrow> bool" where
  "turn_order_inv plan s =
     (answers_nonempty s
      \<and> (\<forall>k. fmlookup (answers_of StudentB (sessionData s)) k \<noteq> None
             \<longrightarrow> fmlookup (answers_of StudentA (sessionData s)) k \<noteq> None)
      \<and> (\<forall>cq. session_view plan s = Some cq \<longrightarrow>
            (phase s = student_b_turn
               \<longrightarrow> truthy (fmlookup (answers_of StudentA (sessionData s)) (question_id cq)))
            \<and> (isManualMode (bellaBox s) \<and> phase s \<noteq> student_b_turn
               \<longrightarrow> truthy (fmlookup (answers_of StudentB (sessionData s)) (question_id cq)))))"

section \<open>Audio playback (\<^verbatim>\<open>geminiService.ts\<close>)\<close>

subsection \<open>Module state and the browser\<close>

text \<open>
  An \<^verbatim>\<open>HTMLAudioElement\<close>: its \<^verbatim>\<open>src\<close> attribute (an object URL, the empty string, or
  removed) and its \<^verbatim>\<open>paused\<close> flag. Object URLs are indices into the registry of blobs.
\<close>

datatype src_attr = SrcUrl nat | SrcEmpty | SrcAbsent

record audio_element =
  src :: src_attr
  paused :: bool

record utterance =
  utterance_text :: string
  utterance_lang :: string

text \<open>
  The module-level variables \<^verbatim>\<open>currentAudio\<close>, \<^verbatim>\<open>latestTtsRequestId\<close> and
  \<^verbatim>\<open>audioCache\<close>, with the parts of the browser they act on: the audio elements created so
  far (\<^verbatim>\<open>currentAudio\<close> refers to one by its index), the blobs registered by
  \<^verbatim>\<open>URL.createObjectURL\<close>, and the queue of \<^verbatim>\<open>window.speechSynthesis\<close>.
  \<open>generateRequests\<close> logs the texts sent to the remote speech model.
\<close>

record tts_state =
  currentAudio :: "nat option"
  latestTtsRequestId :: nat
  audioCache :: "(string, nat) fmap"
  elements :: "audio_element list"
  objectUrls :: "Blob list"
  utterances :: "utterance list"
  generateRequests :: "string list"

definition initial_tts :: tts_state where
  "initial_tts =
     \<lparr>currentAudio = None, latestTtsRequestId = 0, audioCache = fmempty, elements = [],
      objectUrls = [], utterances = [], generateRequests = []\<rparr>"

text \<open>
  How the browser behaves during one call: whether \<^verbatim>\<open>window\<close> and its
  \<^verbatim>\<open>speechSynthesis\<close> exist, the built-in \<^verbatim>\<open>atob\<close> (\<^const>\<open>None\<close> where it throws),
  which of the media and speech operations throw, and whether the autoplay policy lets
  \<^verbatim>\<open>play()\<close> start.
\<close>

record browser =
  hasWindow :: bool
  hasSpeechSynthesis :: bool
  atob :: "string \<Rightarrow> string option"
  pause_throws :: bool
  src_throws :: bool
  removeAttribute_throws :: bool
  cancel_throws :: bool
  speak_throws :: bool
  play_allowed :: bool

subsection \<open>Statements that may throw\<close>

text \<open>
  A statement maps the state to the state it leaves and a flag: \<^const>\<open>True\<close> when it
  completed, \<^const>\<open>False\<close> when it threw. \<open>and_then\<close> is sequencing, \<open>try_catch\<close> is
  \<^verbatim>\<open>try { body } catch (e) { handler }\<close>.
\<close>

type_synonym statement = "tts_state \<Rightarrow> bool \<times> tts_state"

definition skip :: statement where
  "skip s = (True, s)"

definition and_then :: "statement \<Rightarrow> statement \<Rightarrow> statement" where
  "and_then f g s = (case f s of (True, s') \<Rightarrow> g s' | (False, s') \<Rightarrow> (False, s'))"

definition try_catch :: "statement \<Rightarrow> statement \<Rightarrow> statement" where
  "try_catch body handler s = (case body s of (True, s') \<Rightarrow> (True, s') | (False, s') \<Rightarrow> handler s')"

definition update_element :: "nat \<Rightarrow> (audio_element \<Rightarrow> audio_element) \<Rightarrow> tts_state \<Rightarrow> tts_state" where
  "update_element i f s =
     (if i < length (elements s) then s\<lparr>elements := (elements s)[i := f (elements s ! i)]\<rparr> else s)"

definition audio_pause :: "browser \<Rightarrow> nat \<Rightarrow> statement" where
  "audio_pause br i s =
     (if pause_throws br then (False, s) else (True, update_element i (\<lambda>a. a\<lparr>paused := True\<rparr>) s))"

definition audio_set_src_empty :: "browser \<Rightarrow> nat \<Rightarrow> statement" where
  "audio_set_src_empty br i s =
     (if src_throws br then (False, s) else (True, update_element i (\<lambda>a. a\<lparr>src := SrcEmpty\<rparr>) s))"

definition audio_removeAttribute_src :: "browser \<Rightarrow> nat \<Rightarrow> statement" where
  "audio_removeAttribute_src br i s =
     (if removeAttribute_throws br then (False, s)
      else (True, update_element i (\<lambda>a. a\<lparr>src := SrcAbsent\<rparr>) s))"

definition set_currentAudio :: "nat option \<Rightarrow> statement" where
  "set_currentAudio v s = (True, s\<lparr>currentAudio := v\<rparr>)"

definition speechSynthesis_cancel :: "browser \<Rightarrow> statement" where
  "speechSynthesis_cancel br s =
     (if cancel_throws br then (False, s) else (True, s\<lparr>utterances := []\<rparr>))"

subsection \<open>\<^verbatim>\<open>stopAllAudio\<close> and \<^verbatim>\<open>isAudioPlaying\<close>\<close>

definition stopAllAudio :: "browser \<Rightarrow> statement" where
  "stopAllAudio br s =
     and_then
       (case currentAudio s of
          None \<Rightarrow> skip
        | Some i \<Rightarrow>
            try_catch
              (and_then (audio_pause br i)
                (and_then (audio_set_src_empty br i)
                  (and_then (audio_removeAttribute_src br i)
                    (set_currentAudio None))))
              skip)
       (if hasWindow br \<and> hasSpeechSynthesis br
        then try_catch (speechSynthesis_cancel br) skip
        else skip)
       s"

text \<open>The two statements of \<^const>\<open>stopAllAudio\<close>, named for the proofs.\<close>

definition stop_current :: "browser \<Rightarrow> statement" where
  "stop_current br s =
     (case currentAudio s of
        None \<Rightarrow> skip s
      | Some i \<Rightarrow>
          try_catch
            (and_then (audio_pause br i)
              (and_then (audio_set_src_empty br i)
                (and_then (audio_removeAttribute_src br i)
                  (set_currentAudio None))))
            skip s)"

definition cancel_speech :: "browser \<Rightarrow> statement" where
  "cancel_speech br s =
     (if hasWindow br \<and> hasSpeechSynthesis br
      then try_catch (speechSynthesis_cancel br) skip s
      else skip s)"

definition isAudioPlaying :: "tts_state \<Rightarrow> bool" where
  "isAudioPlaying s =
     (case currentAudio s of
        None \<Rightarrow> False
      | Some i \<Rightarrow> i < length (elements s) \<and> \<not> paused (elements s ! i))"

subsection \<open>\<^verbatim>\<open>playTextToSpeech\<close>\<close>

text \<open>
  A call runs until it returns, rejects, or reaches an \<^verbatim>\<open>await\<close>: on the remote speech
  request (remembering its request id and text) or on \<^verbatim>\<open>audio.play()\<close> (remembering its
  request id and the element).
\<close>

datatype suspension = AwaitGenerate nat string | AwaitPlay nat nat

datatype progress = Returned bool | Rejected | Suspended suspension

text \<open>
  The answer to the remote speech request: the call rejects, or the response carries
  \<^verbatim>\<open>candidates?.[0]?.content?.parts?.[0]?.inlineData?.data\<close>, possibly undefined.
\<close>

datatype tts_response = GenerateRejected | GenerateResponse "string option"

definition base64ToUint8Array :: "browser \<Rightarrow> string \<Rightarrow> byte list option" where
  "base64ToUint8Array br base64 =
     (case atob br base64 of
        None \<Rightarrow> None
      | Some binaryString \<Rightarrow> Some (map of_char binaryString))"

text \<open>
  \<^verbatim>\<open>const audio = new Audio(audioUrl); currentAudio = audio;\<close> and the call of
  \<^verbatim>\<open>audio.play()\<close>, which clears \<^verbatim>\<open>paused\<close> when the autoplay policy allows it.
\<close>

definition start_playback :: "browser \<Rightarrow> nat \<Rightarrow> tts_state \<Rightarrow> tts_state \<times> nat" where
  "start_playback br audioUrl s =
     (let i = length (elements s)
      in (s\<lparr>elements := elements s @ [\<lparr>src = SrcUrl audioUrl, paused = \<not> play_allowed br\<rparr>],
            currentAudio := Some i\<rparr>, i))"

text \<open>The outer \<^verbatim>\<open>catch (error)\<close> block.\<close>

definition catch_block :: "nat \<Rightarrow> string \<Rightarrow> browser \<Rightarrow> tts_state \<Rightarrow> tts_state \<times> progress" where
  "catch_block requestId text br s =
     (if requestId \<noteq> latestTtsRequestId s then (s, Returned False)
      else if hasWindow br \<and> hasSpeechSynthesis br
      then (case stopAllAudio br s of
              (False, s) \<Rightarrow> (s, Rejected)
            | (True, s) \<Rightarrow>
                if speak_throws br then (s, Returned False)
                else (s\<lparr>utterances := utterances s
                          @ [\<lparr>utterance_text = text, utterance_lang = ''en-GB''\<rparr>]\<rparr>,
                      Returned True))
      else (s, Returned False))"

text \<open>Steps 5 of both paths: stop, re-check the id, create the element and start it.\<close>

definition stop_and_play :: "nat \<Rightarrow> string \<Rightarrow> nat \<Rightarrow> browser \<Rightarrow> tts_state \<Rightarrow> tts_state \<times> progress" where
  "stop_and_play requestId text audioUrl br s =
     (case stopAllAudio br s of
        (False, s) \<Rightarrow> catch_block requestId text br s
      | (True, s) \<Rightarrow>
          if requestId \<noteq> latestTtsRequestId s then (s, Returned False)
          else let (s, i) = start_playback br audioUrl s
               in (s, Suspended (AwaitPlay requestId i)))"

text \<open>The call, up to its first \<^verbatim>\<open>await\<close>.\<close>

definition playTextToSpeech :: "string \<Rightarrow> browser \<Rightarrow> tts_state \<Rightarrow> tts_state \<times> progress" where
  "playTextToSpeech text br s =
     (let s = s\<lparr>latestTtsRequestId := latestTtsRequestId s + 1\<rparr>;
          requestId = latestTtsRequestId s
      in case fmlookup (audioCache s) text of
           Some audioUrl \<Rightarrow> stop_and_play requestId text audioUrl br s
         | None \<Rightarrow>
             (s\<lparr>generateRequests := generateRequests s @ [text]\<rparr>,
              Suspended (AwaitGenerate requestId text)))"

text \<open>The call resumed after \<^verbatim>\<open>await ai.models.generateContent(...)\<close>.\<close>

definition resume_generate :: "nat \<Rightarrow> string \<Rightarrow> tts_response \<Rightarrow> browser \<Rightarrow> tts_state \<Rightarrow> tts_state \<times> progress" where
  "resume_generate requestId text response br s =
     (case response of
        GenerateRejected \<Rightarrow> catch_block requestId text br s
      | GenerateResponse data \<Rightarrow>
          if requestId \<noteq> latestTtsRequestId s then (s, Returned False)
          else
            (case data of
               None \<Rightarrow> catch_block requestId text br s
             | Some base64Audio \<Rightarrow>
                 if base64Audio = [] then catch_block requestId text br s
                 else
                   (case base64ToUint8Array br base64Audio of
                      None \<Rightarrow> catch_block requestId text br s
                    | Some pcmBytes \<Rightarrow>
                        (case createWavBlob pcmBytes of
                           None \<Rightarrow> catch_block requestId text br s
                         | Some wavBlob \<Rightarrow>
                             let audioUrl = length (objectUrls s);
                                 s = s\<lparr>objectUrls := objectUrls s @ [wavBlob]\<rparr>;
                                 s = s\<lparr>audioCache := fmupd text audioUrl (audioCache s)\<rparr>
                             in stop_and_play requestId text audioUrl br s))))"

text \<open>
  The call resumed after \<^verbatim>\<open>await audio.play()\<close>, inside the inner \<^verbatim>\<open>try\<close>:
  \<^verbatim>\<open>true\<close> when the promise resolved, \<^verbatim>\<open>false\<close> when it rejected.
\<close>

definition resume_play :: "bool \<Rightarrow> tts_state \<Rightarrow> tts_state \<times> progress" where
  "resume_play resolved s = (s, Returned resolved)"

section \<open>Example inputs\<close>

definition example_question_1 :: Question where
  "example_question_1 =
     \<lparr>question_id = ''q1'', question_text = ''What is your name?'',
      question_part = Part_1, question_target = Tom\<rparr>"

definition example_question_2 :: Question where
  "example_question_2 =
     \<lparr>question_id = ''q2'', question_text = ''What do you like doing at weekends?'',
      question_part = Part_2, question_target = Both\<rparr>"

definition example_plan :: DailyPlan where
  "example_plan = \<lparr>day = 1, topic = ''Hobbies'', questions = [example_question_1, example_question_2]\<rparr>"

definition one_question_plan :: DailyPlan where
  "one_question_plan = \<lparr>day = 1, topic = ''Hobbies'', questions = [example_question_1]\<rparr>"

text \<open>A browser with speech recognition, and one without (Firefox, for instance).\<close>

definition voice_platform :: platform where
  "voice_platform =
     \<lparr>ua_isIOS = False, ua_safari = False, ua_otherBrowser = False,
      hasSpeechRecognition = True, detection_throws = False\<rparr>"

definition typing_platform :: platform where
  "typing_platform =
     \<lparr>ua_isIOS = False, ua_safari = False, ua_otherBrowser = False,
      hasSpeechRecognition = False, detection_throws = False\<rparr>"

definition empty_record :: SessionData where
  "empty_record = \<lparr>studentA = \<lparr>answers = fmempty\<rparr>, studentB = \<lparr>answers = fmempty\<rparr>\<rparr>"

definition one_answer_record :: SessionData where
  "one_answer_record =
     \<lparr>studentA = \<lparr>answers = fmupd ''q1'' ''I like football'' fmempty\<rparr>,
      studentB = \<lparr>answers = fmempty\<rparr>\<rparr>"

text \<open>
  Two recognition sessions that each end with one final segment, and a third that is still
  interim.
\<close>

definition hello_there_friend :: "speech_result list list" where
  "hello_there_friend =
     [[\<lparr>result_transcript = ''Hello'', isFinal = True\<rparr>],
      [\<lparr>result_transcript = ''there'', isFinal = True\<rparr>],
      [\<lparr>result_transcript = ''friend'', isFinal = False\<rparr>]]"

text \<open>Two recognition sessions; the final segment of the first ends in a space.\<close>

definition trailing_space_batches :: "speech_result list list" where
  "trailing_space_batches =
     [[\<lparr>result_transcript = ''Hello '', isFinal = True\<rparr>],
      [\<lparr>result_transcript = ''there'', isFinal = True\<rparr>]]"

definition recording_box :: student_box where
  "recording_box =
     (onresults hello_there_friend (mount_box voice_platform))
       \<lparr>isRecording := True, recognitionInstanceRef := Some new_recognition\<rparr>"

text \<open>
  A browser in which nothing throws and autoplay is allowed; of \<^verbatim>\<open>atob\<close> only the value at
  \<open>AQI=\<close> is needed, the base64 encoding of the bytes 1 and 2.
\<close>

definition example_browser :: browser where
  "example_browser =
     \<lparr>hasWindow = True, hasSpeechSynthesis = True,
      atob = (\<lambda>s. if s = ''AQI='' then Some [CHR 0x01, CHR 0x02] else None),
      pause_throws = False, src_throws = False, removeAttribute_throws = False,
      cancel_throws = False, speak_throws = False, play_allowed = True\<rparr>"

definition first_call_started :: tts_state where
  "first_call_started = fst (playTextToSpeech ''Question one'' example_browser initial_tts)"

definition first_call_playing :: tts_state where
  "first_call_playing =
     fst (resume_generate 1 ''Question one'' (GenerateResponse (Some ''AQI='')) example_browser
            first_call_started)"

definition second_call_started :: tts_state where
  "second_call_started = fst (playTextToSpeech ''Question two'' example_browser first_call_playing)"

text \<open>
  The same browser with a \<^verbatim>\<open>pause()\<close> that throws, and with a
  \<^verbatim>\<open>speechSynthesis.cancel()\<close> that throws; and the state after the first call fell back to
  the local voice because its request was rejected.
\<close>

definition failing_pause_browser :: browser where
  "failing_pause_browser = example_browser\<lparr>pause_throws := True\<rparr>"

definition failing_cancel_browser :: browser where
  "failing_cancel_browser = example_browser\<lparr>cancel_throws := True\<rparr>"

definition fallback_speaking :: tts_state where
  "fallback_speaking =
     fst (resume_generate 1 ''Question one'' GenerateRejected example_browser first_call_started)"

text \<open>Event sequences of a session on a browser without speech recognition.\<close>

definition out_of_turn_events :: "session_event list" where
  "out_of_turn_events = [Box StudentB (TypeText ''hi''), Box StudentB Submit]"

text \<open>
  A session on a browser with speech recognition: in his turn participant A records twice (each
  recording ends with one final segment, the batches of \<^const>\<open>trailing_space_batches\<close>) and
  submits.
\<close>

definition two_recordings_events :: "session_event list" where
  "two_recordings_events =
     [ExaminerDone,
      Box StudentA (MicClick False False), Box StudentA OnStart,
      Box StudentA (OnResult [\<lparr>result_transcript = ''Hello '', isFinal = True\<rparr>]),
      Box StudentA OnEnd,
      Box StudentA (MicClick False False), Box StudentA OnStart,
      Box StudentA (OnResult [\<lparr>result_transcript = ''there'', isFinal = True\<rparr>]),
      Box StudentA OnEnd,
      Box StudentA Submit]"

definition typed_early_events :: "session_event list" where
  "typed_early_events = [Box StudentA (TypeText ''hi'')]"

definition typed_answer_events :: "session_event list" where
  "typed_answer_events =
     [ExaminerDone, Box StudentA (TypeText ''I like football''), Box StudentA Submit]"

definition me_too_events :: "session_event list" where
  "me_too_events = [Box StudentB (TypeText ''Me too''), Box StudentB Submit]"

definition finish_early_events :: "session_event list" where
  "finish_early_events = typed_answer_events @ [EarlyFinish, EarlyFinish]"

chapter \<open>Properties\<close>

section \<open>The audio container\<close>

lemma nat_bytes4:
  fixes n :: nat
  assumes "n < 2 ^ 32"
  shows "n mod 256 + 256 * (n div 256 mod 256 + 256 * (n div 65536 mod 256
           + 256 * (n div 16777216 mod 256))) = n"
proof -
  define a where "a = n div 256"
  define b where "b = a div 256"
  define c where "c = b div 256"
  define r0 where "r0 = n mod 256"
  define r1 where "r1 = a mod 256"
  define r2 where "r2 = b mod 256"
  have n: "n = 256 * a + r0" unfolding a_def r0_def by simp
  have a: "a = 256 * b + r1" unfolding b_def r1_def by simp
  have b: "b = 256 * c + r2" unfolding c_def r2_def by simp
  have c: "c < 256" using assms n a b by simp
  have nb: "n div 65536 = b" unfolding b_def a_def by (simp add: div_mult2_eq [symmetric])
  have nc: "n div 16777216 = c" unfolding c_def b_def a_def by (simp add: div_mult2_eq [symmetric])
  have "n mod 256 + 256 * (n div 256 mod 256 + 256 * (n div 65536 mod 256
          + 256 * (n div 16777216 mod 256)))
      = r0 + 256 * (r1 + 256 * (r2 + 256 * c))"
    unfolding nb nc using c by (simp add: r0_def r1_def r2_def a_def)
  also have "\<dots> = n" using n a b by simp
  finally show ?thesis .
qed

lemma nat_bytes2:
  fixes n :: nat
  assumes "n < 2 ^ 16"
  shows "n mod 256 + 256 * (n div 256 mod 256) = n"
proof -
  have "n div 256 < 256" using assms by simp
  then show ?thesis by simp
qed

lemma le_value_le32: "le_value (le32 w) = unat w"
proof -
  have b: "unat w < 2 ^ 32" using unsigned_less [of w, where 'a = nat] by simp
  have "le_value (le32 w) = unat w mod 256 + 256 * (unat w div 256 mod 256
          + 256 * (unat w div 65536 mod 256 + 256 * (unat w div 16777216 mod 256)))"
    by (simp add: le32_def unsigned_ucast_eq unat_drop_bit_eq drop_bit_eq_div take_bit_eq_mod
        unat_div_distrib)
  also have "\<dots> = unat w" using b by (rule nat_bytes4)
  finally show ?thesis .
qed

lemma le_value_le16: "le_value (le16 w) = unat w"
proof -
  have b: "unat w < 2 ^ 16" using unsigned_less [of w, where 'a = nat] by simp
  have "le_value (le16 w) = unat w mod 256 + 256 * (unat w div 256 mod 256)"
    by (simp add: le16_def unsigned_ucast_eq unat_drop_bit_eq drop_bit_eq_div take_bit_eq_mod
        unat_div_distrib)
  also have "\<dots> = unat w" using b by (rule nat_bytes2)
  finally show ?thesis .
qed

text \<open>None of the writes is out of range: the container is the header followed by the payload.\<close>

lemma createWavBlob_eq:
  "createWavBlob pcm =
     Some \<lparr>blob_bytes = wav_header (length pcm) @ pcm, blob_type = ''audio/wav''\<rparr>"
  unfolding wav_header_def
  by (simp add: createWavBlob_def SAMPLE_RATE_def setUint32_def setUint16_def setUint8_def
      write_bytes_def typed_array_set_def ascii_def le32_def le16_def Let_def)

lemma bytes_at_header:
  "bytes_at 0 4 (wav_header n @ pcm) = ascii ''RIFF''"
  "bytes_at 4 4 (wav_header n @ pcm) = le32 (of_nat (36 + n))"
  "bytes_at 8 4 (wav_header n @ pcm) = ascii ''WAVE''"
  "bytes_at 12 4 (wav_header n @ pcm) = ascii ''fmt ''"
  "bytes_at 22 2 (wav_header n @ pcm) = le16 1"
  "bytes_at 24 4 (wav_header n @ pcm) = le32 24000"
  "bytes_at 36 4 (wav_header n @ pcm) = ascii ''data''"
  "bytes_at 40 4 (wav_header n @ pcm) = le32 (of_nat n)"
  "drop 44 (wav_header n @ pcm) = pcm"
  "length (wav_header n @ pcm) = 44 + length pcm"
  unfolding wav_header_def
  by (simp_all add: bytes_at_def ascii_def le32_def le16_def)

text \<open>
  The size fields hold their values modulo \<open>2 ^ 32\<close>, whatever the size of the payload.
\<close>

lemma createWavBlob_size_fields:
  "\<exists>blob. createWavBlob pcm = Some blob
     \<and> le_value (bytes_at 4 4 (blob_bytes blob)) = (36 + length pcm) mod 2 ^ 32
     \<and> le_value (bytes_at 40 4 (blob_bytes blob)) = length pcm mod 2 ^ 32"
  unfolding createWavBlob_eq
  by (simp add: bytes_at_header le_value_le32 unat_of_nat del: of_nat_add)

text \<open>
  Claim C3: for every PCM input of \<open>N\<close> bytes whose sizes fit the 32-bit fields of the
  header (\<open>36 + N < 2 ^ 32\<close>; the payload is the decoded base64 text of one synthesis
  response), \<^const>\<open>createWavBlob\<close> builds a container of exactly \<open>44 + N\<close> bytes; bytes
  0 to 3 are \<open>RIFF\<close>, bytes 4 to 7 little-endian equal \<open>36 + N\<close>, bytes 8 to 11 are
  \<open>WAVE\<close>, bytes 12 to 15 are \<open>fmt \<close>, bytes 22 to 23 little-endian equal 1, bytes 24 to
  27 little-endian equal 24000, bytes 36 to 39 are \<open>data\<close>, bytes 40 to 43 little-endian
  equal \<open>N\<close>, and the bytes from 44 on are the input.
\<close>

theorem createWavBlob_layout:
  assumes "36 + length pcm < 2 ^ 32"
  shows "\<exists>blob. createWavBlob pcm = Some blob
    \<and> length (blob_bytes blob) = 44 + length pcm
    \<and> bytes_at 0 4 (blob_bytes blob) = ascii ''RIFF''
    \<and> le_value (bytes_at 4 4 (blob_bytes blob)) = 36 + length pcm
    \<and> bytes_at 8 4 (blob_bytes blob) = ascii ''WAVE''
    \<and> bytes_at 12 4 (blob_bytes blob) = ascii ''fmt ''
    \<and> le_value (bytes_at 22 2 (blob_bytes blob)) = 1
    \<and> le_value (bytes_at 24 4 (blob_bytes blob)) = 24000
    \<and> bytes_at 36 4 (blob_bytes blob) = ascii ''data''
    \<and> le_value (bytes_at 40 4 (blob_bytes blob)) = length pcm
    \<and> drop 44 (blob_bytes blob) = pcm"
proof -
  define wav where "wav = wav_header (length pcm) @ pcm"
  from assms have a: "unat (of_nat (36 + length pcm) :: 32 word) = 36 + length pcm"
    and b: "unat (of_nat (length pcm) :: 32 word) = length pcm"
    by (simp_all add: unat_of_nat del: of_nat_add)
  have blob: "createWavBlob pcm = Some \<lparr>blob_bytes = wav, blob_type = ''audio/wav''\<rparr>"
    unfolding wav_def by (rule createWavBlob_eq)
  have 1: "length wav = 44 + length pcm"
    unfolding wav_def by (rule bytes_at_header)
  have 2: "bytes_at 0 4 wav = ascii ''RIFF''" "bytes_at 8 4 wav = ascii ''WAVE''"
    "bytes_at 12 4 wav = ascii ''fmt ''" "bytes_at 36 4 wav = ascii ''data''"
    unfolding wav_def by (rule bytes_at_header)+
  have 3: "le_value (bytes_at 4 4 wav) = 36 + length pcm"
    unfolding wav_def bytes_at_header le_value_le32 by (rule a)
  have 4: "le_value (bytes_at 40 4 wav) = length pcm"
    unfolding wav_def bytes_at_header le_value_le32 by (rule b)
  have 5: "le_value (bytes_at 22 2 wav) = 1" "le_value (bytes_at 24 4 wav) = 24000"
    unfolding wav_def bytes_at_header le_value_le32 le_value_le16 by simp_all
  have 6: "drop 44 wav = pcm"
    unfolding wav_def by (rule bytes_at_header)
  show ?thesis
    by (rule exI [where x = "\<lparr>blob_bytes = wav, blob_type = ''audio/wav''\<rparr>"])
       (simp only: Blob.select_convs blob 1 2 3 4 5 6 simp_thms)
qed

theorem createWavBlob_layout_witness:
  "36 + length [1, 2 :: byte] < (2 :: nat) ^ 32
   \<and> (\<exists>blob. createWavBlob [1, 2] = Some blob
        \<and> length (blob_bytes blob) = 44 + length [1, 2 :: byte]
        \<and> le_value (bytes_at 4 4 (blob_bytes blob)) = 36 + length [1, 2 :: byte]
        \<and> le_value (bytes_at 40 4 (blob_bytes blob)) = length [1, 2 :: byte]
        \<and> drop 44 (blob_bytes blob) = [1, 2])"
proof -
  have h: "36 + length [1, 2 :: byte] < (2 :: nat) ^ 32" by simp
  from createWavBlob_layout [OF h] obtain blob where
    "createWavBlob [1, 2] = Some blob"
    "length (blob_bytes blob) = 44 + length [1, 2 :: byte]"
    "le_value (bytes_at 4 4 (blob_bytes blob)) = 36 + length [1, 2 :: byte]"
    "le_value (bytes_at 40 4 (blob_bytes blob)) = length [1, 2 :: byte]"
    "drop 44 (blob_bytes blob) = [1, 2]"
    by blast
  with h show ?thesis by blast
qed

section \<open>Evaluation\<close>

lemma has_keys: "(fcard (fmdom m) > 0) = (m \<noteq> fmempty)"
proof -
  have "m = fmempty" if "fmdom m = {||}"
    using that by (metis fmrestrict_fset_dom fmrestrict_fset_null)
  then have "(fcard (fmdom m) = 0) = (m = fmempty)" by auto
  then show ?thesis by (simp only: neq0_conv [symmetric])
qed

lemma nonempty_fmap_has_entry:
  fixes m :: "(string, string) fmap"
  assumes "m \<noteq> fmempty"
  shows "\<exists>q t. fmlookup m q = Some t"
proof (rule ccontr)
  assume "\<not> ?thesis"
  then have "fmlookup m q = fmlookup fmempty q" for q by (cases "fmlookup m q") auto
  then have "m = fmempty" by (rule fmap_ext)
  with assms show False by simp
qed

text \<open>
  Claim C10: if both answer maps are empty, \<^const>\<open>evaluateSession\<close> settles with the fixed
  report (score 0 and feedback \<open>No answers recorded.\<close> for each participant) and sends no
  request to the remote evaluator; a request is sent only when some participant has a recorded
  answer, and then exactly one.
\<close>

theorem evaluateSession_without_answers:
  "(answers (studentA d) = fmempty \<and> answers (studentB d) = fmempty \<longrightarrow>
      evaluateSession plan d response
        = \<lparr>remote_requests = [], settles_with = Some no_answers_report\<rparr>
      \<and> score (studentA_result no_answers_report) = 0
      \<and> score (studentB_result no_answers_report) = 0
      \<and> feedback (studentA_result no_answers_report) = ''No answers recorded.''
      \<and> feedback (studentB_result no_answers_report) = ''No answers recorded.'')
   \<and> (remote_requests (evaluateSession plan d response) \<noteq> [] \<longrightarrow>
        (\<exists>q t. fmlookup (answers (studentA d)) q = Some t
              \<or> fmlookup (answers (studentB d)) q = Some t))
   \<and> (answers (studentA d) \<noteq> fmempty \<or> answers (studentB d) \<noteq> fmempty \<longrightarrow>
        remote_requests (evaluateSession plan d response) = [(plan, d)])"
  using nonempty_fmap_has_entry [of "answers (studentA d)"]
    nonempty_fmap_has_entry [of "answers (studentB d)"]
  unfolding evaluateSession_def Let_def has_keys
  by (auto simp add: no_answers_report_def no_answers_result_def)

theorem evaluateSession_without_answers_witness:
  "answers (studentA empty_record) = fmempty \<and> answers (studentB empty_record) = fmempty
   \<and> evaluateSession example_plan empty_record RequestRejected
       = \<lparr>remote_requests = [], settles_with = Some no_answers_report\<rparr>
   \<and> answers (studentA one_answer_record) \<noteq> fmempty
   \<and> remote_requests (evaluateSession example_plan one_answer_record RequestRejected)
       = [(example_plan, one_answer_record)]
   \<and> remote_requests (evaluateSession example_plan one_answer_record RequestRejected) \<noteq> []
   \<and> fmlookup (answers (studentA one_answer_record)) ''q1'' = Some ''I like football''"
proof -
  have e: "answers (studentA empty_record) = fmempty \<and> answers (studentB empty_record) = fmempty"
    by (simp add: empty_record_def)
  have n: "answers (studentA one_answer_record) \<noteq> fmempty"
    by (simp add: one_answer_record_def)
  have l: "fmlookup (answers (studentA one_answer_record)) ''q1'' = Some ''I like football''"
    by (simp add: one_answer_record_def)
  from evaluateSession_without_answers [of empty_record example_plan RequestRejected]
    evaluateSession_without_answers [of one_answer_record example_plan RequestRejected]
    e n l
  show ?thesis by simp
qed

section \<open>Transcript assembly\<close>

lemma dropWhile_id: "xs = [] \<or> \<not> P (hd xs) \<Longrightarrow> dropWhile P xs = xs"
  by (cases xs) auto

lemma trim_clean: "clean_segment s \<Longrightarrow> trim s = s"
  by (simp add: clean_segment_def trim_def dropWhile_id hd_rev)

lemma trim_Nil [simp]: "trim [] = []"
  by (simp add: trim_def)

lemma trim_clean_or_empty: "trim s = [] \<or> clean_segment (trim s)"
proof (cases "trim s = []")
  case False
  define u where "u = dropWhile isWhiteSpace s"
  define v where "v = dropWhile isWhiteSpace (rev u)"
  have t: "trim s = rev v" by (simp add: trim_def u_def v_def)
  from False t have v: "v \<noteq> []" by simp
  then have hv: "\<not> isWhiteSpace (hd v)" unfolding v_def by (rule hd_dropWhile)
  from v have u: "u \<noteq> []" unfolding v_def by auto
  then have hu: "\<not> isWhiteSpace (hd u)" unfolding u_def by (rule hd_dropWhile)
  have "\<exists>w. rev u = w @ v" unfolding v_def by (metis takeWhile_dropWhile_id)
  then obtain w where w: "rev u = w @ v" by blast
  then have "u = rev v @ rev w" by (metis rev_append rev_rev_ident)
  with v have "hd u = hd (rev v)" by simp
  with hu have 1: "\<not> isWhiteSpace (hd (trim s))" by (simp add: t)
  from hv v have 2: "\<not> isWhiteSpace (last (trim s))" by (simp add: t last_rev)
  from False 1 2 show ?thesis by (simp add: clean_segment_def)
qed simp

lemma trim_idem: "trim (trim s) = trim s"
  using trim_clean_or_empty [of s] by (auto simp: trim_clean)

lemma isWhiteSpace_space: "isWhiteSpace CHR '' ''"
  by (simp add: isWhiteSpace_def)

lemma dropWhile_last:
  "xs \<noteq> [] \<Longrightarrow> \<not> P (last xs) \<Longrightarrow> dropWhile P xs \<noteq> [] \<and> last (dropWhile P xs) = last xs"
  by (induction xs) auto

lemma trim_ends_in_text:
  assumes "ends_in_text s"
  shows "trim s = dropWhile isWhiteSpace s"
proof -
  define d where "d = dropWhile isWhiteSpace s"
  from assms have "d \<noteq> [] \<and> last d = last s"
    unfolding d_def ends_in_text_def using dropWhile_last [of s isWhiteSpace] by blast
  with assms have "rev d = [] \<or> \<not> isWhiteSpace (hd (rev d))"
    by (simp add: ends_in_text_def hd_rev)
  then have "dropWhile isWhiteSpace (rev d) = rev d" by (rule dropWhile_id)
  then show ?thesis by (simp add: trim_def d_def)
qed

lemma trim_leading: "isWhiteSpace c \<Longrightarrow> trim (c # s) = trim s"
  by (simp add: trim_def)

lemma trim_after_trim:
  assumes "x = [] \<or> ends_in_text x"
  shows "trim (trim x @ t) = trim (x @ t)"
proof (cases "x = []")
  case True
  then show ?thesis by simp
next
  case False
  with assms have e: "ends_in_text x" by simp
  define d where "d = dropWhile isWhiteSpace x"
  from e have l: "last x \<in> set x" "\<not> isWhiteSpace (last x)"
    by (simp_all add: ends_in_text_def)
  then have a: "dropWhile isWhiteSpace (x @ t) = d @ t"
    unfolding d_def by (rule dropWhile_append1)
  from e have dn: "d \<noteq> []"
    unfolding d_def ends_in_text_def using dropWhile_last [of x isWhiteSpace] by blast
  then have "\<not> isWhiteSpace (hd d)" unfolding d_def by (rule hd_dropWhile)
  with dn have "d @ t = [] \<or> \<not> isWhiteSpace (hd (d @ t))" by simp
  then have b: "dropWhile isWhiteSpace (d @ t) = d @ t" by (rule dropWhile_id)
  have "trim (trim x @ t) = trim (d @ t)"
    using trim_ends_in_text [OF e] by (simp add: d_def)
  also have "\<dots> = rev (dropWhile isWhiteSpace (rev (d @ t)))"
    unfolding trim_def b ..
  also have "\<dots> = trim (x @ t)"
    unfolding trim_def a ..
  finally show ?thesis .
qed

lemma result_loop_eq:
  "result_loop rs (f, i) =
     (f @ concat (map result_transcript (filter isFinal rs)),
      i @ concat (map result_transcript (filter (\<lambda>r. \<not> isFinal r) rs)))"
  by (induction rs arbitrary: f i) auto

lemma onresult_mounted:
  assumes "isMountedRef box"
  shows "onresult rs box =
     (let newFinal = concat (map result_transcript (filter isFinal rs));
          newInterim = concat (map result_transcript (filter (\<lambda>r. \<not> isFinal r) rs))
      in (if newFinal \<noteq> []
          then box\<lparr>fullTranscriptRef := trim (fullTranscriptRef box @ '' '' @ newFinal),
                   transcript := trim (fullTranscriptRef box @ '' '' @ newFinal)\<rparr>
          else box)\<lparr>interimTranscript := newInterim\<rparr>)"
  using assms by (auto simp add: onresult_def result_loop_eq Let_def)


lemma space_joined_snoc:
  "segs \<noteq> [] \<Longrightarrow> space_joined (segs @ [x]) = space_joined segs @ '' '' @ x"
  by (induction segs rule: space_joined.induct) auto

lemma space_joined_ends:
  "segs \<noteq> [] \<Longrightarrow> \<forall>x\<in>set segs. ends_in_text x \<Longrightarrow> ends_in_text (space_joined segs)"
  by (induction segs rule: space_joined.induct) (auto simp: ends_in_text_def)

lemma onresults_snoc: "onresults (batches @ [batch]) box = onresult batch (onresults batches box)"
  by (simp add: onresults_def)

lemma onresults_mounted: "isMountedRef box \<Longrightarrow> isMountedRef (onresults batches box)"
  by (induction batches rule: rev_induct) (auto simp: onresults_snoc onresult_def Let_def split: prod.splits, simp add: onresults_def)

lemma final_segments_snoc:
  "final_segments (batches @ [batch]) = final_segments batches @ map result_transcript (filter isFinal batch)"
  by (simp add: final_segments_def)

lemma onresults_joined:
  assumes "isMountedRef box" "fullTranscriptRef box = []"
    and "\<forall>batch\<in>set batches. length (filter isFinal batch) \<le> 1"
    and "\<forall>batch\<in>set batches. \<forall>r\<in>set batch. isFinal r \<longrightarrow> ends_in_text (result_transcript r)"
  shows "fullTranscriptRef (onresults batches box) = trim (space_joined (final_segments batches))
       \<and> (\<forall>x\<in>set (final_segments batches). ends_in_text x)"
  using assms(3,4)
proof (induction batches rule: rev_induct)
  case Nil
  show ?case using assms(2) by (simp add: onresults_def final_segments_def)
next
  case (snoc batch batches)
  then have IH: "fullTranscriptRef (onresults batches box)
                   = trim (space_joined (final_segments batches))"
    and cl: "\<forall>x\<in>set (final_segments batches). ends_in_text x" by auto
  have m: "isMountedRef (onresults batches box)" using assms(1) by (rule onresults_mounted)
  from snoc.prems have le: "length (filter isFinal batch) \<le> 1"
    and clb: "\<forall>r\<in>set (filter isFinal batch). ends_in_text (result_transcript r)" by auto
  show ?case
  proof (cases "filter isFinal batch")
    case Nil
    then show ?thesis using IH cl m
      by (simp add: onresults_snoc onresult_mounted final_segments_snoc Let_def)
  next
    case (Cons r rest)
    with le have rest: "rest = []" by simp
    with Cons have fb: "filter isFinal batch = [r]" by simp
    with clb have cr: "ends_in_text (result_transcript r)" by simp
    then have ne: "result_transcript r \<noteq> []" by (simp add: ends_in_text_def)
    define j where "j = space_joined (final_segments batches)"
    have full: "fullTranscriptRef (onresults (batches @ [batch]) box)
        = trim (trim j @ '' '' @ result_transcript r)"
      using m ne IH by (simp add: onresults_snoc onresult_mounted fb Let_def j_def)
    have j: "j = [] \<or> ends_in_text j"
    proof (cases "final_segments batches = []")
      case True then show ?thesis by (simp add: j_def)
    next
      case False then show ?thesis unfolding j_def using cl by (simp add: space_joined_ends)
    qed
    have full': "fullTranscriptRef (onresults (batches @ [batch]) box)
        = trim (j @ '' '' @ result_transcript r)"
      unfolding full using j by (rule trim_after_trim)
    have all: "\<forall>x\<in>set (final_segments (batches @ [batch])). ends_in_text x"
      using cl cr by (simp add: final_segments_snoc fb)
    show ?thesis
    proof (cases "final_segments batches = []")
      case True
      then show ?thesis using full' all
        by (simp add: final_segments_snoc fb j_def trim_leading isWhiteSpace_space)
    next
      case False
      then show ?thesis using full' all
        by (simp add: final_segments_snoc fb j_def space_joined_snoc)
    qed
  qed
qed


lemma handleSubmit_cases:
  "handleSubmit box =
     (if spec_submit_text box = []
      then (box\<lparr>errorMsg := Some ''Please say something first.''\<rparr>, [])
      else (box, (if isRecording box \<and> recognitionInstanceRef box \<noteq> None
                  then [RecognitionAbort] else [])
                 @ [AnswerComplete (spec_submit_text box)]))"
  by (simp add: handleSubmit_def spec_submit_text_def Let_def trim_idem)

lemma box_step_answer:
  "AnswerComplete t \<in> set (snd (box_step pf e box)) \<Longrightarrow> e = Submit"
  by (cases e) (auto simp: handleMicClick_def getRecognition_def Let_def split: option.splits if_splits prod.splits)

lemma hello_example:
  "onresults hello_there_friend (mount_box voice_platform)
     = (mount_box voice_platform)\<lparr>fullTranscriptRef := ''Hello there'', transcript := ''Hello there'',
          interimTranscript := ''friend''\<rparr>"
  by (simp add: hello_there_friend_def onresults_def onresult_def mount_box_def mount_effect_def
      initial_box_def voice_platform_def Let_def trim_def isWhiteSpace_def)

text \<open>
  The final segments of one batch are concatenated without a separator. An engine in
  continuous mode delivers such batches; the one \<^const>\<open>getRecognition\<close> configures
  (\<^const>\<open>new_recognition\<close>, not continuous) ends a recording with its first final segment.
\<close>

lemma two_finals_in_one_batch:
  "fullTranscriptRef
     (onresult [\<lparr>result_transcript = ''Hello'', isFinal = True\<rparr>,
                \<lparr>result_transcript = ''there'', isFinal = True\<rparr>] (mount_box voice_platform))
     = ''Hellothere''
   \<and> \<not> continuous new_recognition"
  by (simp add: onresult_def mount_box_def mount_effect_def new_recognition_def
      initial_box_def voice_platform_def Let_def trim_def isWhiteSpace_def)

text \<open>An empty final segment is not joined at all.\<close>

lemma empty_final_is_skipped:
  "fullTranscriptRef
     (onresults [[\<lparr>result_transcript = ''Hello'', isFinal = True\<rparr>],
                 [\<lparr>result_transcript = [], isFinal = True\<rparr>],
                 [\<lparr>result_transcript = ''there'', isFinal = True\<rparr>]] (mount_box voice_platform))
     = ''Hello there''
   \<and> spec_final_transcript [''Hello'', [], ''there''] = ''Hello  there''"
  by (simp add: onresults_def onresult_def mount_box_def mount_effect_def
      spec_final_transcript_def initial_box_def voice_platform_def Let_def trim_def isWhiteSpace_def)

lemma trailing_space_run:
  "onresults trailing_space_batches (mount_box voice_platform)
     = (mount_box voice_platform)\<lparr>fullTranscriptRef := ''Hello there'', transcript := ''Hello there''\<rparr>"
  by (simp add: trailing_space_batches_def onresults_def onresult_def mount_box_def mount_effect_def
      initial_box_def voice_platform_def Let_def trim_def isWhiteSpace_def)

text \<open>
  Claim C4, as stated, fails when a final segment ends in white space: the participant
  records twice, the first recording ends with the final segment \<open>Hello \<close> and the second
  with \<open>there\<close>. The cumulative transcript, and the answer the session records on submit,
  is \<open>Hello there\<close> with one space, because the transcript is trimmed after every batch;
  the space-joined, trimmed concatenation of the two segments has two.
\<close>

theorem trailing_space_is_dropped:
  "list_all (\<lambda>batch. length (filter isFinal batch) \<le> 1) trailing_space_batches
   \<and> final_segments trailing_space_batches = [''Hello '', ''there'']
   \<and> fullTranscriptRef (onresults trailing_space_batches (mount_box voice_platform))
       = ''Hello there''
   \<and> fmlookup (answers_of StudentA (sessionData
         (run_session example_plan voice_platform two_recordings_events))) ''q1''
       = Some ''Hello there''
   \<and> spec_final_transcript (final_segments trailing_space_batches) = ''Hello  there''"
proof -
  have "fmlookup (answers_of StudentA (sessionData
         (run_session example_plan voice_platform two_recordings_events))) ''q1''
       = Some ''Hello there''"
    by (simp add: two_recordings_events_def run_session_def initial_session_def example_plan_def
      example_question_1_def example_question_2_def voice_platform_def mount_box_def
      mount_effect_def initial_box_def session_view_def currentQuestion_def props_of_def
      box_of_def set_box_def answers_of_def truthy_def turn_of_def handleSubmit_def
      handleStudentAComplete_def handleExaminerDone_def hasText_def trim_def isWhiteSpace_def
      Let_def handleMicClick_def getRecognition_def onstart_def onend_def onresult_def
      new_recognition_def)
  then show ?thesis
    unfolding trailing_space_run
    by (simp add: trailing_space_batches_def final_segments_def spec_final_transcript_def
        trim_def isWhiteSpace_def)
qed

text \<open>
  Claim C4, amended: while the box is mounted, starting from an empty transcript, if every
  batch carries at most one final segment (as the recognizer delivers them the way
  \<^const>\<open>getRecognition\<close> configures it) and every final segment ends in a character that is
  not white space, the cumulative final transcript equals the space-joined, trimmed
  concatenation of all final segments seen so far; each batch replaces the interim preview by
  the concatenation of its own non-final segments; the text that submit delivers is the final
  transcript concatenated with the pending interim text, trimmed; with the final segments
  \<open>Hello\<close> and \<open>there\<close> and the pending interim \<open>friend\<close>, submit yields
  \<open>Hello there friend\<close>.
\<close>

theorem transcript_merge:
  assumes "isMountedRef box" and "fullTranscriptRef box = []"
    and "\<forall>batch\<in>set batches. length (filter isFinal batch) \<le> 1"
    and "\<forall>batch\<in>set batches. \<forall>r\<in>set batch. isFinal r \<longrightarrow> ends_in_text (result_transcript r)"
  shows "fullTranscriptRef (onresults batches box) = spec_final_transcript (final_segments batches)
    \<and> interimTranscript (onresult batch (onresults batches box))
        = concat (map result_transcript (filter (\<lambda>r. \<not> isFinal r) batch))
    \<and> (\<forall>t. AnswerComplete t \<in> set (snd (handleSubmit (onresults batches box)))
          \<longrightarrow> t = spec_submit_text (onresults batches box))
    \<and> snd (handleSubmit (onresults hello_there_friend (mount_box voice_platform)))
        = [AnswerComplete ''Hello there friend'']"
proof -
  from onresults_joined [OF assms]
  have 1: "fullTranscriptRef (onresults batches box)
      = spec_final_transcript (final_segments batches)"
    by (simp add: spec_final_transcript_def)
  have m: "isMountedRef (onresults batches box)" using assms(1) by (rule onresults_mounted)
  have 2: "interimTranscript (onresult batch (onresults batches box))
        = concat (map result_transcript (filter (\<lambda>r. \<not> isFinal r) batch))"
    using m by (simp add: onresult_mounted Let_def)
  have 3: "\<forall>t. AnswerComplete t \<in> set (snd (handleSubmit (onresults batches box)))
          \<longrightarrow> t = spec_submit_text (onresults batches box)"
    by (auto simp: handleSubmit_cases split: if_splits)
  have 4: "snd (handleSubmit (onresults hello_there_friend (mount_box voice_platform)))
        = [AnswerComplete ''Hello there friend'']"
    unfolding hello_example
    by (simp add: handleSubmit_def mount_box_def mount_effect_def
      initial_box_def voice_platform_def Let_def trim_def isWhiteSpace_def)
  from 1 2 3 4 show ?thesis by blast
qed

theorem transcript_merge_witness:
  "isMountedRef (mount_box voice_platform) \<and> fullTranscriptRef (mount_box voice_platform) = []
   \<and> list_all (\<lambda>batch. length (filter isFinal batch) \<le> 1) hello_there_friend
   \<and> list_all ends_in_text (final_segments hello_there_friend)
   \<and> fullTranscriptRef (onresults hello_there_friend (mount_box voice_platform))
       = spec_final_transcript (final_segments hello_there_friend)
   \<and> spec_final_transcript (final_segments hello_there_friend) = ''Hello there''
   \<and> interimTranscript (onresults hello_there_friend (mount_box voice_platform)) = ''friend''"
proof -
  have 1: "isMountedRef (mount_box voice_platform)"
    and 2: "fullTranscriptRef (mount_box voice_platform) = []"
    by (simp_all add: mount_box_def mount_effect_def initial_box_def voice_platform_def Let_def)
  have 3: "\<forall>batch\<in>set hello_there_friend. length (filter isFinal batch) \<le> 1"
    by (simp add: hello_there_friend_def)
  have 4: "\<forall>batch\<in>set hello_there_friend. \<forall>r\<in>set batch.
             isFinal r \<longrightarrow> ends_in_text (result_transcript r)"
    by (simp add: hello_there_friend_def ends_in_text_def isWhiteSpace_def)
  have 5: "spec_final_transcript (final_segments hello_there_friend) = ''Hello there''"
    by (simp add: hello_there_friend_def final_segments_def spec_final_transcript_def trim_def
        isWhiteSpace_def)
  have 6: "list_all (\<lambda>batch. length (filter isFinal batch) \<le> 1) hello_there_friend"
    by (simp add: hello_there_friend_def)
  have 7: "list_all ends_in_text (final_segments hello_there_friend)"
    by (simp add: hello_there_friend_def final_segments_def ends_in_text_def isWhiteSpace_def)
  have 8: "interimTranscript (onresults hello_there_friend (mount_box voice_platform)) = ''friend''"
    by (simp add: hello_example)
  from transcript_merge [OF 1 2 3 4] 1 2 5 6 7 8 show ?thesis by blast
qed

lemma deliver_Nil_sessionData:
  "sessionData (set_box who box s) = sessionData s"
  by (cases who) (simp_all add: set_box_def)

text \<open>
  Claim C7: submit computes the final transcript concatenated with the pending interim text
  (in manual mode, the typed buffer), trimmed. When that is blank it sets the error message
  and calls nothing: no answer is delivered and the session record is unchanged. Otherwise it
  aborts the recognition session if one is recording and delivers exactly the trimmed text.
  No other event of the box delivers an answer.
\<close>

theorem submit_delivers_trimmed_text:
  "(spec_submit_text box = [] \<longrightarrow>
      handleSubmit box = (box\<lparr>errorMsg := Some ''Please say something first.''\<rparr>, []))
   \<and> (spec_submit_text box \<noteq> [] \<longrightarrow>
      handleSubmit box =
        (box, (if isRecording box \<and> recognitionInstanceRef box \<noteq> None
               then [RecognitionAbort] else [])
              @ [AnswerComplete (spec_submit_text box)]))
   \<and> (AnswerComplete t \<in> set (snd (box_step pf e box)) \<longrightarrow> e = Submit)
   \<and> (spec_submit_text (box_of who s) = [] \<longrightarrow>
        sessionData (session_step plan pf (Box who Submit) s) = sessionData s)"
proof -
  have 4: "sessionData (session_step plan pf (Box who Submit) s) = sessionData s"
    if "spec_submit_text (box_of who s) = []"
    using that
    by (auto simp: handleSubmit_cases deliver_Nil_sessionData split: option.splits)
  show ?thesis
    using 4 box_step_answer [of t pf e box] by (simp add: handleSubmit_cases)
qed

theorem submit_delivers_trimmed_text_witness:
  "spec_submit_text (mount_box voice_platform) = []
   \<and> handleSubmit (mount_box voice_platform)
       = ((mount_box voice_platform)\<lparr>errorMsg := Some ''Please say something first.''\<rparr>, [])
   \<and> spec_submit_text recording_box \<noteq> []
   \<and> handleSubmit recording_box
       = (recording_box, [RecognitionAbort, AnswerComplete ''Hello there friend''])
   \<and> AnswerComplete ''Hello there friend'' \<in> set (snd (box_step typing_platform Submit recording_box))
   \<and> spec_submit_text (box_of StudentB (initial_session typing_platform)) = []
   \<and> sessionData (session_step example_plan typing_platform (Box StudentB Submit)
         (initial_session typing_platform))
       = sessionData (initial_session typing_platform)"
proof -
  have 1: "spec_submit_text (mount_box voice_platform) = []"
    by (simp add: spec_submit_text_def mount_box_def mount_effect_def initial_box_def
        voice_platform_def Let_def)
  have r: "recording_box = (mount_box voice_platform)\<lparr>fullTranscriptRef := ''Hello there'',
          transcript := ''Hello there'', interimTranscript := ''friend'',
          isRecording := True, recognitionInstanceRef := Some new_recognition\<rparr>"
    by (simp add: recording_box_def hello_example)
  have 2: "spec_submit_text recording_box = ''Hello there friend''"
    unfolding r
    by (simp add: spec_submit_text_def mount_box_def mount_effect_def initial_box_def
        voice_platform_def Let_def trim_def isWhiteSpace_def)
  have 3: "isRecording recording_box \<and> recognitionInstanceRef recording_box \<noteq> None"
    by (simp add: recording_box_def)
  have 5: "spec_submit_text (box_of StudentB (initial_session typing_platform)) = []"
    by (simp add: spec_submit_text_def box_of_def initial_session_def mount_box_def mount_effect_def
        initial_box_def typing_platform_def Let_def)
  from submit_delivers_trimmed_text
         [of "mount_box voice_platform" "''Hello there friend''" typing_platform Submit StudentB
             "initial_session typing_platform" example_plan]
       submit_delivers_trimmed_text
         [of recording_box "''Hello there friend''" typing_platform Submit StudentB
             "initial_session typing_platform" example_plan]
       1 2 3 5
  show ?thesis by simp
qed



section \<open>The turn-taking state machine\<close>

lemma deliver_no_answer:
  "\<forall>t. AnswerComplete t \<notin> set es \<Longrightarrow> deliver plan pf who q es s = s"
  by (induction plan pf who q es s rule: deliver.induct) auto

lemma sessionData_goToNextQuestion [simp]:
  "sessionData (goToNextQuestion plan pf d s) = sessionData s"
  by (simp add: goToNextQuestion_def finishSession_begin_def Let_def)

lemma sessionData_set_box [simp]: "sessionData (set_box who box s) = sessionData s"
  by (cases who) (simp_all add: set_box_def)

lemma deliver_answer:
  assumes "\<forall>t. AnswerComplete t \<notin> set pre"
  shows "deliver plan pf who q (pre @ [AnswerComplete t]) s =
     (case who of StudentA \<Rightarrow> handleStudentAComplete q t s
               | StudentB \<Rightarrow> handleStudentBComplete plan pf q t s)"
  using assms
proof (induction pre)
  case Nil
  show ?case by simp
next
  case (Cons a pre)
  then show ?case by (cases a) auto
qed

lemma answers_of_A_complete:
  "answers_of who' (sessionData (handleStudentAComplete q t s)) =
     (if who' = StudentA then fmupd (question_id q) t (answers_of StudentA (sessionData s))
      else answers_of who' (sessionData s))"
  by (cases who') (simp_all add: handleStudentAComplete_def answers_of_def Let_def)

lemma answers_of_B_complete:
  "answers_of who' (sessionData (handleStudentBComplete plan pf q t s)) =
     (if who' = StudentB then fmupd (question_id q) t (answers_of StudentB (sessionData s))
      else answers_of who' (sessionData s))"
  by (cases who') (simp_all add: handleStudentBComplete_def answers_of_def Let_def)

text \<open>What one step does to a participant's answers.\<close>

lemma session_step_answers:
  "answers_of who (sessionData (session_step plan pf e s)) = answers_of who (sessionData s)
   \<or> (e = Box who Submit \<and> spec_submit_text (box_of who s) \<noteq> []
       \<and> (\<exists>q. session_view plan s = Some q
             \<and> \<not> truthy (fmlookup (answers_of who (sessionData s)) (question_id q))
             \<and> answers_of who (sessionData (session_step plan pf e s))
                 = fmupd (question_id q) (spec_submit_text (box_of who s))
                     (answers_of who (sessionData s))))"
proof (cases e)
  case ExaminerDone
  then show ?thesis by (simp add: handleExaminerDone_def split: option.splits)
next
  case (Box who' ev)
  show ?thesis
  proof (cases "session_view plan s")
    case None
    with Box show ?thesis by simp
  next
    case (Some q)
    show ?thesis
    proof (cases "box_offers (props_of who' q s) (box_of who' s) ev")
      case False
      with Box Some show ?thesis by simp
    next
      case True
      show ?thesis
      proof (cases "ev = Submit")
        case False
        then have na: "\<forall>t. AnswerComplete t \<notin> set (snd (box_step pf ev (box_of who' s)))"
          using box_step_answer by blast
        obtain box' effects where bs: "box_step pf ev (box_of who' s) = (box', effects)"
          by (cases "box_step pf ev (box_of who' s)")
        with na have "\<forall>t. AnswerComplete t \<notin> set effects" by simp
        then show ?thesis using Box Some True bs
          by (simp add: deliver_no_answer)
      next
        case sub: True
        show ?thesis
        proof (cases "spec_submit_text (box_of who' s) = []")
          case True
          then show ?thesis using Box Some sub
            by (simp add: handleSubmit_cases)
        next
          case ne: False
          define pre where "pre = (if isRecording (box_of who' s) \<and> recognitionInstanceRef (box_of who' s) \<noteq> None
                 then [RecognitionAbort] else [])"
          have pre: "\<forall>t. AnswerComplete t \<notin> set pre"
            by (simp add: pre_def)
          note da = deliver_answer [OF pre]
          have step: "session_step plan pf e s =
             deliver plan pf who' q (pre @ [AnswerComplete (spec_submit_text (box_of who' s))])
               (set_box who' (box_of who' s) s)"
            using Box Some sub True ne by (simp add: handleSubmit_cases pre_def)
          have nt: "\<not> truthy (fmlookup (answers_of who' (sessionData s)) (question_id q))"
            using True sub by (simp add: props_of_def)
          show ?thesis
          proof (cases "who' = who")
            case True
            then show ?thesis using step nt ne Box Some sub
              by (cases who) (simp_all add: da answers_of_A_complete answers_of_B_complete)
          next
            case False
            then show ?thesis using step
              by (cases who') (simp_all add: da answers_of_A_complete answers_of_B_complete)
          qed
        qed
      qed
    qed
  qed
next
  case EarlyFinish
  then show ?thesis
    by (simp add: handleEarlyFinish_def finishSession_begin_def split: option.splits)
next
  case ConfirmExpired
  then show ?thesis by simp
next
  case (EvaluationSettles response)
  then show ?thesis
    by (simp add: finishSession_settle_def Let_def split: option.splits)
qed


lemma run_session_snoc:
  "run_session plan pf (events @ [e]) = session_step plan pf e (run_session plan pf events)"
  by (simp add: run_session_def)

lemma answers_nonempty_step:
  assumes "answers_nonempty s"
  shows "answers_nonempty (session_step plan pf e s)"
  unfolding answers_nonempty_def
proof (intro allI)
  fix who q
  from session_step_answers [of who plan pf e s]
  consider "answers_of who (sessionData (session_step plan pf e s)) = answers_of who (sessionData s)"
    | k where "spec_submit_text (box_of who s) \<noteq> []"
        "answers_of who (sessionData (session_step plan pf e s))
           = fmupd k (spec_submit_text (box_of who s)) (answers_of who (sessionData s))"
    by blast
  then show "fmlookup (answers_of who (sessionData (session_step plan pf e s))) q \<noteq> Some []"
  proof cases
    case 1
    then show ?thesis using assms by (simp only: answers_nonempty_def) blast
  next
    case 2
    then show ?thesis using assms by (simp only: answers_nonempty_def fmupd_lookup) auto
  qed
qed

lemma answers_nonempty_run: "answers_nonempty (run_session plan pf events)"
proof (induction events rule: rev_induct)
  case Nil
  have "answers_of who (sessionData (initial_session pf)) = fmempty" for who
    by (cases who) (simp_all add: answers_of_def initial_session_def)
  then show ?case by (simp add: run_session_def answers_nonempty_def)
next
  case (snoc e events)
  then show ?case by (simp add: run_session_snoc answers_nonempty_step)
qed

lemma session_view_currentQuestion:
  "session_view plan s = Some q \<Longrightarrow> currentQuestion plan s = Some q"
  by (simp add: session_view_def split: if_splits)

lemma absent_if_not_truthy:
  "answers_nonempty s \<Longrightarrow> \<not> truthy (fmlookup (answers_of who (sessionData s)) k)
     \<Longrightarrow> fmlookup (answers_of who (sessionData s)) k = None"
  by (cases "fmlookup (answers_of who (sessionData s)) k")
     (auto simp: truthy_def answers_nonempty_def)

lemma step_keeps_answer:
  assumes "answers_nonempty s"
    and "fmlookup (answers_of who (sessionData s)) q = Some t"
  shows "fmlookup (answers_of who (sessionData (session_step plan pf e s))) q = Some t"
proof (cases "answers_of who (sessionData (session_step plan pf e s)) = answers_of who (sessionData s)")
  case True
  then show ?thesis using assms(2) by (simp only:)
next
  case False
  with session_step_answers [of who plan pf e s]
  obtain cq :: Question
    where nt: "\<not> truthy (fmlookup (answers_of who (sessionData s)) (question_id cq))"
    and eq: "answers_of who (sessionData (session_step plan pf e s))
           = fmupd (question_id cq) (spec_submit_text (box_of who s)) (answers_of who (sessionData s))"
    by blast
  from absent_if_not_truthy [OF assms(1) nt] assms(2) have "question_id cq \<noteq> q" by auto
  then show ?thesis using assms(2) by (simp only: eq fmupd_lookup if_False)
qed

lemma run_keeps_answer:
  assumes "fmlookup (answers_of who (sessionData (run_session plan pf events))) q = Some t"
  shows "fmlookup (answers_of who (sessionData (run_session plan pf (events @ later)))) q = Some t"
proof (induction later rule: rev_induct)
  case Nil
  show ?case using assms by simp
next
  case (snoc e later)
  have "answers_nonempty (run_session plan pf (events @ later))" by (rule answers_nonempty_run)
  from step_keeps_answer [OF this snoc.IH]
  have "fmlookup (answers_of who (sessionData
          (session_step plan pf e (run_session plan pf (events @ later))))) q = Some t" .
  then show ?case by (simp only: run_session_snoc append_assoc [symmetric])
qed

text \<open>
  The session record grows monotonically on every browser: an answer that is in the record
  stays there, unchanged, whatever happens later in the session; the only event that changes a
  participant's answers is that participant's submit, and it adds the current question's id,
  which was absent, with the submitted text.
\<close>

lemma answers_persist:
  "(fmlookup (answers_of who (sessionData (run_session plan pf events))) q = Some t \<longrightarrow>
      fmlookup (answers_of who (sessionData (run_session plan pf (events @ later)))) q = Some t)
   \<and> (answers_of who (sessionData (session_step plan pf e (run_session plan pf events)))
        \<noteq> answers_of who (sessionData (run_session plan pf events)) \<longrightarrow>
      e = Box who Submit
      \<and> (\<exists>cq. currentQuestion plan (run_session plan pf events) = Some cq
            \<and> fmlookup (answers_of who (sessionData (run_session plan pf events))) (question_id cq) = None
            \<and> answers_of who (sessionData (session_step plan pf e (run_session plan pf events)))
                = fmupd (question_id cq) (spec_submit_text (box_of who (run_session plan pf events)))
                    (answers_of who (sessionData (run_session plan pf events)))))"
proof -
  define s where "s = run_session plan pf events"
  have ne: "answers_nonempty s" unfolding s_def by (rule answers_nonempty_run)
  have 2: "e = Box who Submit
      \<and> (\<exists>cq. currentQuestion plan s = Some cq
            \<and> fmlookup (answers_of who (sessionData s)) (question_id cq) = None
            \<and> answers_of who (sessionData (session_step plan pf e s))
                = fmupd (question_id cq) (spec_submit_text (box_of who s)) (answers_of who (sessionData s)))"
    if "answers_of who (sessionData (session_step plan pf e s)) \<noteq> answers_of who (sessionData s)"
  proof -
    from session_step_answers [of who plan pf e s] that
    obtain cq where e: "e = Box who Submit" and v: "session_view plan s = Some cq"
      and nt: "\<not> truthy (fmlookup (answers_of who (sessionData s)) (question_id cq))"
      and eq: "answers_of who (sessionData (session_step plan pf e s))
           = fmupd (question_id cq) (spec_submit_text (box_of who s)) (answers_of who (sessionData s))"
      by blast
    from e session_view_currentQuestion [OF v] absent_if_not_truthy [OF ne nt] eq
    show ?thesis by blast
  qed
  show ?thesis
    using run_keeps_answer [of who plan pf events q t later] 2 unfolding s_def by blast
qed

lemma pending_deliver:
  assumes "phase s = evaluating \<longrightarrow> pendingEvaluation s \<noteq> None"
  shows "phase (deliver plan pf who q es s) = evaluating
         \<longrightarrow> pendingEvaluation (deliver plan pf who q es s) \<noteq> None"
  using assms
proof (induction plan pf who q es s rule: deliver.induct)
  case (2 plan pf who q answer es s)
  define s' where "s' = (case who of StudentA \<Rightarrow> handleStudentAComplete q answer s
                          | StudentB \<Rightarrow> handleStudentBComplete plan pf q answer s)"
  have "phase s' = evaluating \<longrightarrow> pendingEvaluation s' \<noteq> None"
    unfolding s'_def
    by (cases who) (simp_all add: handleStudentAComplete_def handleStudentBComplete_def
        goToNextQuestion_def finishSession_begin_def Let_def)
  then have "phase (deliver plan pf who q es s') = evaluating
         \<longrightarrow> pendingEvaluation (deliver plan pf who q es s') \<noteq> None"
    unfolding s'_def by (rule "2.IH")
  then show ?case by (simp add: s'_def)
qed simp_all

lemma pending_step:
  assumes "phase s = evaluating \<longrightarrow> pendingEvaluation s \<noteq> None"
  shows "phase (session_step plan pf e s) = evaluating
         \<longrightarrow> pendingEvaluation (session_step plan pf e s) \<noteq> None"
proof (cases e)
  case ExaminerDone
  then show ?thesis using assms by (simp add: handleExaminerDone_def split: option.splits)
next
  case (Box who ev)
  have sb: "phase (set_box who b s) = evaluating \<longrightarrow> pendingEvaluation (set_box who b s) \<noteq> None" for b
    using assms by (cases who) (simp_all add: set_box_def)
  show ?thesis using Box assms pending_deliver [OF sb]
    by (simp split: option.splits prod.splits)
next
  case EarlyFinish
  then show ?thesis using assms
    by (simp add: handleEarlyFinish_def finishSession_begin_def split: option.splits)
next
  case ConfirmExpired
  then show ?thesis using assms by simp
next
  case (EvaluationSettles response)
  then show ?thesis using assms
    by (auto simp add: finishSession_settle_def Let_def split: option.splits)
qed

lemma pending_run:
  "phase (run_session plan pf events) = evaluating
     \<longrightarrow> pendingEvaluation (run_session plan pf events) \<noteq> None"
proof (induction events rule: rev_induct)
  case Nil
  show ?case by (simp add: run_session_def initial_session_def)
next
  case (snoc e events)
  then show ?case unfolding run_session_snoc by (rule pending_step)
qed

text \<open>
  Claim C5: in every reachable state whose phase is \<open>evaluating\<close> an evaluation is in flight,
  and when it settles, with a report or with a failure, the phase becomes \<open>results\<close>: the
  report is the one returned, or the zero-score fallback report when the evaluation failed.
\<close>

theorem evaluating_reaches_results:
  assumes "phase (run_session plan pf events) = evaluating"
  shows "\<exists>closure_data. pendingEvaluation (run_session plan pf events) = Some closure_data
     \<and> phase (session_step plan pf (EvaluationSettles response) (run_session plan pf events)) = results
     \<and> report (session_step plan pf (EvaluationSettles response) (run_session plan pf events))
         = Some (case settles_with (evaluateSession plan closure_data response) of
                   Some result \<Rightarrow> result
                 | None \<Rightarrow> fallback_report)
     \<and> score (studentA_result fallback_report) = 0
     \<and> score (studentB_result fallback_report) = 0"
proof -
  from assms pending_run [of plan pf events]
  obtain closure_data where "pendingEvaluation (run_session plan pf events) = Some closure_data"
    by auto
  then show ?thesis
    by (auto simp: finishSession_settle_def Let_def fallback_report_def fallback_result_def
        split: option.splits)
qed

lemmas session_eval_defs =
  run_session_def initial_session_def example_plan_def example_question_1_def
  example_question_2_def typing_platform_def voice_platform_def mount_box_def mount_effect_def
  initial_box_def session_view_def currentQuestion_def props_of_def box_of_def set_box_def
  answers_of_def truthy_def turn_of_def handleSubmit_def handleStudentAComplete_def
  handleStudentBComplete_def goToNextQuestion_def finishSession_begin_def handleExaminerDone_def
  handleEarlyFinish_def unmount_box_def hasText_def trim_def isWhiteSpace_def Let_def

lemma out_of_turn_run:
  "run_session example_plan typing_platform out_of_turn_events =
     (initial_session typing_platform)
       \<lparr>currentQuestionIdx := 1,
        sessionData := \<lparr>studentA = \<lparr>answers = fmempty\<rparr>,
                        studentB = \<lparr>answers = fmupd ''q1'' ''hi'' fmempty\<rparr>\<rparr>\<rparr>"
  by (simp add: out_of_turn_events_def session_eval_defs)

text \<open>
  Claim C2 fails on the code: on a browser without speech recognition both boxes start in
  manual mode, whose submit button ignores \<open>disabled\<close>. Participant B types and submits
  during the examiner phase of the first question: B's answer for \<open>q1\<close> is recorded, A has
  none, and the session moves on to the second question.
\<close>

theorem bella_answers_before_tom:
  "fmlookup (answers_of StudentB (sessionData
       (run_session example_plan typing_platform out_of_turn_events))) ''q1'' = Some ''hi''
   \<and> fmlookup (answers_of StudentA (sessionData
       (run_session example_plan typing_platform out_of_turn_events))) ''q1'' = None
   \<and> phase (run_session example_plan typing_platform out_of_turn_events) = examiner_speaking
   \<and> currentQuestionIdx (run_session example_plan typing_platform out_of_turn_events) = 1"
  unfolding out_of_turn_run
  by (simp add: answers_of_def initial_session_def)

text \<open>
  On a browser where the boxes mount in voice mode the order holds in every reachable state:
  whatever B has answered, A has answered too.
\<close>

lemma box_event_step:
  assumes "session_view plan s = Some q"
    and "box_offers (props_of who q s) (box_of who s) ev"
  shows "session_step plan pf (Box who ev) s =
     (if ev = Submit \<and> spec_submit_text (box_of who s) \<noteq> []
      then (case who of
              StudentA \<Rightarrow> handleStudentAComplete q (spec_submit_text (box_of who s)) s
            | StudentB \<Rightarrow> handleStudentBComplete plan pf q (spec_submit_text (box_of who s)) s)
      else set_box who (fst (box_step pf ev (box_of who s))) s)"
proof (cases "ev = Submit")
  case False
  then have na: "\<forall>t. AnswerComplete t \<notin> set (snd (box_step pf ev (box_of who s)))"
    using box_step_answer by blast
  obtain box' effects where bs: "box_step pf ev (box_of who s) = (box', effects)"
    by (cases "box_step pf ev (box_of who s)")
  with na have "\<forall>t. AnswerComplete t \<notin> set effects" by simp
  then show ?thesis using assms False bs by (simp add: deliver_no_answer)
next
  case sub: True
  show ?thesis
  proof (cases "spec_submit_text (box_of who s) = []")
    case True
    then show ?thesis using assms sub by (simp add: handleSubmit_cases)
  next
    case ne: False
    define pre where "pre = (if isRecording (box_of who s) \<and> recognitionInstanceRef (box_of who s) \<noteq> None
                 then [RecognitionAbort] else [])"
    have pre: "\<forall>t. AnswerComplete t \<notin> set pre" by (simp add: pre_def)
    have same: "set_box who (box_of who s) s = s"
      by (cases who) (simp_all add: set_box_def box_of_def)
    have "session_step plan pf (Box who ev) s =
             deliver plan pf who q (pre @ [AnswerComplete (spec_submit_text (box_of who s))])
               (set_box who (box_of who s) s)"
      using assms sub ne by (simp add: handleSubmit_cases pre_def)
    then show ?thesis using sub ne by (simp add: deliver_answer [OF pre] same)
  qed
qed

lemma inactive_box_keeps_mode:
  assumes "box_offers props box ev" "disabled props" "\<not> isActive props"
  shows "isManualMode (fst (box_step pf ev box)) = isManualMode box"
  using assms
  by (cases ev) (auto simp: handleSubmit_cases onstart_def onresult_def onerror_def onend_def
      Let_def split: prod.splits)


lemma answers_of_set_box [simp]:
  "answers_of w (sessionData (set_box who box s)) = answers_of w (sessionData s)"
  by simp

lemma set_box_fields [simp]:
  "phase (set_box who box s) = phase s"
  "session_view plan (set_box who box s) = session_view plan s"
  "bellaBox (set_box who box s) = (if who = StudentB then box else bellaBox s)"
  by (cases who; simp add: set_box_def session_view_def currentQuestion_def)+

lemma answers_nonempty_set_box [simp]:
  "answers_nonempty (set_box who box s) = answers_nonempty s"
  by (simp add: answers_nonempty_def)

lemma turn_order_step:
  assumes voice: "\<not> isManualMode (mount_box pf)" and inv: "turn_order_inv plan s"
  shows "turn_order_inv plan (session_step plan pf e s)"
proof (cases e)
  case ExaminerDone
  then show ?thesis using inv
    by (auto simp: turn_order_inv_def handleExaminerDone_def session_view_def
        currentQuestion_def answers_nonempty_def split: option.splits if_splits)
next
  case (Box who ev)
  show ?thesis
  proof (cases "session_view plan s")
    case None
    with Box inv show ?thesis by simp
  next
    case (Some cq)
    show ?thesis
    proof (cases "box_offers (props_of who cq s) (box_of who s) ev")
      case False
      with Box Some inv show ?thesis by simp
    next
      case offered: True
      note step = box_event_step [OF Some offered, of pf]
      show ?thesis
      proof (cases "ev = Submit \<and> spec_submit_text (box_of who s) \<noteq> []")
        case False
        then have eq: "session_step plan pf e s = set_box who (fst (box_step pf ev (box_of who s))) s"
          unfolding Box step by auto
        have mode: "isManualMode (fst (box_step pf ev (bellaBox s))) = isManualMode (bellaBox s)"
          if "who = StudentB" "phase s \<noteq> student_b_turn"
          using inactive_box_keeps_mode [of "props_of who cq s" "box_of who s" ev pf] offered that
          by (simp add: props_of_def turn_of_def box_of_def)
        show ?thesis unfolding eq using inv mode
          by (auto simp: turn_order_inv_def box_of_def)
      next
        case True
        then have sub: "ev = Submit" and ne: "spec_submit_text (box_of who s) \<noteq> []" by auto
        define t where "t = spec_submit_text (box_of who s)"
        have nt: "\<not> truthy (fmlookup (answers_of who (sessionData s)) (question_id cq))"
          using offered sub by (simp add: props_of_def)
        have cur: "currentQuestionIdx s < length (questions plan)"
          "cq = questions plan ! currentQuestionIdx s" "phase s \<noteq> evaluating"
          "\<not> (phase s = results \<and> report s \<noteq> None)"
          using Some by (auto simp: session_view_def currentQuestion_def split: if_splits)
        show ?thesis
        proof (cases who)
          case StudentA
          then have eq: "session_step plan pf e s = handleStudentAComplete cq t s"
            unfolding Box step t_def using True by simp
          show ?thesis unfolding eq using inv ne cur
            by (auto simp: turn_order_inv_def handleStudentAComplete_def Let_def t_def
                answers_nonempty_def answers_of_def truthy_def session_view_def
                currentQuestion_def split: student.splits)
        next
          case StudentB
          then have eq: "session_step plan pf e s = handleStudentBComplete plan pf cq t s"
            unfolding Box step t_def using True by simp
          have turn: "phase s = student_b_turn"
          proof (rule ccontr)
            assume n: "phase s \<noteq> student_b_turn"
            with offered sub StudentB have "isManualMode (bellaBox s)"
              by (simp add: props_of_def turn_of_def box_of_def)
            with inv n Some have "truthy (fmlookup (answers_of StudentB (sessionData s)) (question_id cq))"
              by (simp add: turn_order_inv_def)
            with nt StudentB show False by simp
          qed
          with inv Some have a: "truthy (fmlookup (answers_of StudentA (sessionData s)) (question_id cq))"
            by (simp add: turn_order_inv_def)
          show ?thesis unfolding eq using inv ne cur a voice StudentB
            by (auto simp: turn_order_inv_def handleStudentBComplete_def goToNextQuestion_def
                finishSession_begin_def Let_def t_def
                answers_nonempty_def answers_of_def truthy_def session_view_def
                currentQuestion_def split: student.splits option.splits)
        qed
      qed
    qed
  qed
next
  case EarlyFinish
  then show ?thesis using inv
    by (auto simp: turn_order_inv_def handleEarlyFinish_def finishSession_begin_def session_view_def
        currentQuestion_def answers_nonempty_def split: option.splits if_splits)
next
  case ConfirmExpired
  then show ?thesis using inv
    by (auto simp: turn_order_inv_def session_view_def currentQuestion_def answers_nonempty_def)
next
  case (EvaluationSettles response)
  then show ?thesis using inv
    by (auto simp: turn_order_inv_def finishSession_settle_def Let_def session_view_def
        currentQuestion_def answers_nonempty_def split: option.splits if_splits)
qed


lemma turn_order_run:
  assumes "\<not> isManualMode (mount_box pf)"
  shows "turn_order_inv plan (run_session plan pf events)"
proof (induction events rule: rev_induct)
  case Nil
  show ?case using assms
    by (simp add: run_session_def turn_order_inv_def initial_session_def answers_nonempty_def
        answers_of_def split: student.splits)
next
  case (snoc e events)
  then show ?case unfolding run_session_snoc by (rule turn_order_step [OF assms])
qed

lemma voice_mode_turn_order:
  assumes "\<not> isManualMode (mount_box pf)"
    and "fmlookup (answers_of StudentB (sessionData (run_session plan pf events))) q = Some t"
  shows "\<exists>t'. fmlookup (answers_of StudentA (sessionData (run_session plan pf events))) q = Some t'"
  using turn_order_run [OF assms(1), of plan events] assms(2)
  by (auto simp: turn_order_inv_def)


lemma typed_answer_run:
  "run_session example_plan typing_platform typed_answer_events =
     (initial_session typing_platform)
       \<lparr>phase := student_b_turn,
        tomBox := (mount_box typing_platform)\<lparr>manualText := ''I like football''\<rparr>,
        sessionData := \<lparr>studentA = \<lparr>answers = fmupd ''q1'' ''I like football'' fmempty\<rparr>,
                        studentB = \<lparr>answers = fmempty\<rparr>\<rparr>\<rparr>"
  by (simp add: typed_answer_events_def session_eval_defs)

lemma typing_run:
  "run_session example_plan typing_platform
       [ExaminerDone, Box StudentA (TypeText ''I like football'')] =
     (initial_session typing_platform)
       \<lparr>phase := student_a_turn,
        tomBox := (mount_box typing_platform)\<lparr>manualText := ''I like football''\<rparr>\<rparr>"
  by (simp add: session_eval_defs)

text \<open>
  A session with a single question, both participants answering in turn: when B submits,
  the session record has both answers, and the evaluation is started with the record of the
  render in which B submitted, which has A's answer only.
\<close>

lemma one_question_session:
  "phase (run_session one_question_plan typing_platform (typed_answer_events @ me_too_events))
     = evaluating
   \<and> sessionData (run_session one_question_plan typing_platform
         (typed_answer_events @ me_too_events))
     = \<lparr>studentA = \<lparr>answers = fmupd ''q1'' ''I like football'' fmempty\<rparr>,
        studentB = \<lparr>answers = fmupd ''q1'' ''Me too'' fmempty\<rparr>\<rparr>
   \<and> pendingEvaluation (run_session one_question_plan typing_platform
         (typed_answer_events @ me_too_events))
     = Some one_answer_record"
  by (simp add: typed_answer_events_def me_too_events_def one_question_plan_def
      one_answer_record_def session_eval_defs)

lemma answers_persist_example:
  "fmlookup (answers_of StudentA (sessionData
       (run_session example_plan typing_platform typed_answer_events))) ''q1''
     = Some ''I like football''
   \<and> fmlookup (answers_of StudentA (sessionData
       (run_session example_plan typing_platform (typed_answer_events @ me_too_events)))) ''q1''
     = Some ''I like football''
   \<and> answers_of StudentA (sessionData (session_step example_plan typing_platform (Box StudentA Submit)
         (run_session example_plan typing_platform
            [ExaminerDone, Box StudentA (TypeText ''I like football'')])))
     \<noteq> answers_of StudentA (sessionData (run_session example_plan typing_platform
            [ExaminerDone, Box StudentA (TypeText ''I like football'')]))
   \<and> currentQuestion example_plan (run_session example_plan typing_platform
            [ExaminerDone, Box StudentA (TypeText ''I like football'')]) = Some example_question_1
   \<and> fmlookup (answers_of StudentA (sessionData (run_session example_plan typing_platform
            [ExaminerDone, Box StudentA (TypeText ''I like football'')]))) ''q1'' = None"
proof -
  have 1: "fmlookup (answers_of StudentA (sessionData
       (run_session example_plan typing_platform typed_answer_events))) ''q1''
     = Some ''I like football''"
    unfolding typed_answer_run by (simp add: answers_of_def)
  have step: "session_step example_plan typing_platform (Box StudentA Submit)
         (run_session example_plan typing_platform
            [ExaminerDone, Box StudentA (TypeText ''I like football'')])
      = run_session example_plan typing_platform typed_answer_events"
    by (simp add: typed_answer_events_def run_session_def)
  have 2: "answers_of StudentA (sessionData (session_step example_plan typing_platform (Box StudentA Submit)
         (run_session example_plan typing_platform
            [ExaminerDone, Box StudentA (TypeText ''I like football'')])))
     \<noteq> answers_of StudentA (sessionData (run_session example_plan typing_platform
            [ExaminerDone, Box StudentA (TypeText ''I like football'')]))"
    unfolding step
    by (simp only: typed_answer_run typing_run) (simp add: answers_of_def initial_session_def)
  have 3: "currentQuestion example_plan (run_session example_plan typing_platform
            [ExaminerDone, Box StudentA (TypeText ''I like football'')]) = Some example_question_1"
    unfolding typing_run by (simp add: currentQuestion_def initial_session_def example_plan_def)
  have 4: "fmlookup (answers_of StudentA (sessionData (run_session example_plan typing_platform
            [ExaminerDone, Box StudentA (TypeText ''I like football'')]))) ''q1'' = None"
    unfolding typing_run by (simp add: answers_of_def initial_session_def)
  from answers_persist
         [of StudentA example_plan typing_platform typed_answer_events "''q1''"
             "''I like football''" me_too_events "Box StudentA Submit"]
       1
  have 5: "fmlookup (answers_of StudentA (sessionData
       (run_session example_plan typing_platform (typed_answer_events @ me_too_events)))) ''q1''
     = Some ''I like football''" by blast
  from answers_persist
         [of StudentA example_plan typing_platform
             "[ExaminerDone, Box StudentA (TypeText ''I like football'')]" "''q1''"
             "''I like football''" me_too_events "Box StudentA Submit"]
       2
  have 6: "answers_of StudentA (sessionData (session_step example_plan typing_platform
         (Box StudentA Submit) (run_session example_plan typing_platform
            [ExaminerDone, Box StudentA (TypeText ''I like football'')])))
     = fmupd ''q1'' ''I like football'' fmempty"
    unfolding step typed_answer_run by (simp add: answers_of_def)
  from 1 2 3 4 5 show ?thesis by blast
qed

text \<open>
  For the voice-mode submit button the \<open>disabled\<close> attribute does what the turn taking
  needs: it is offered only in the participant's own turn.
\<close>

lemma voice_submit_needs_turn:
  assumes "box_offers (props_of who q s) box Submit" and "\<not> isManualMode box"
  shows "phase s = turn_of who"
  using assms by (simp add: props_of_def)

lemma typed_early_run:
  "run_session example_plan typing_platform typed_early_events =
     (initial_session typing_platform)
       \<lparr>tomBox := (mount_box typing_platform)\<lparr>manualText := ''hi''\<rparr>\<rparr>"
  by (simp add: typed_early_events_def session_eval_defs)

text \<open>
  Claim C6 fails on the code in its \<open>at that participant's turn completion\<close>: on a browser
  without speech recognition participant A types and submits while the examiner is still
  speaking. Before the submit the phase is the examiner's and A has no answer for \<open>q1\<close>;
  the submit writes A's answer for \<open>q1\<close> and the phase becomes B's turn, A's turn never
  having begun.
\<close>

theorem tom_answers_outside_turn:
  "phase (run_session example_plan typing_platform typed_early_events) = examiner_speaking
   \<and> turn_of StudentA = student_a_turn
   \<and> fmlookup (answers_of StudentA (sessionData
         (run_session example_plan typing_platform typed_early_events))) ''q1'' = None
   \<and> fmlookup (answers_of StudentA (sessionData
         (session_step example_plan typing_platform (Box StudentA Submit)
            (run_session example_plan typing_platform typed_early_events)))) ''q1'' = Some ''hi''
   \<and> phase (session_step example_plan typing_platform (Box StudentA Submit)
         (run_session example_plan typing_platform typed_early_events)) = student_b_turn"
  unfolding typed_early_run
  by (simp add: session_eval_defs)

lemma finish_early_run:
  "phase (run_session example_plan typing_platform finish_early_events) = evaluating
   \<and> pendingEvaluation (run_session example_plan typing_platform finish_early_events)
       = Some one_answer_record"
  by (simp add: finish_early_events_def typed_answer_events_def one_answer_record_def
      session_eval_defs)

theorem evaluating_reaches_results_witness:
  "phase (run_session example_plan typing_platform finish_early_events) = evaluating
   \<and> phase (session_step example_plan typing_platform (EvaluationSettles RequestRejected)
         (run_session example_plan typing_platform finish_early_events)) = results
   \<and> report (session_step example_plan typing_platform (EvaluationSettles RequestRejected)
         (run_session example_plan typing_platform finish_early_events)) = Some fallback_report"
proof -
  have h: "phase (run_session example_plan typing_platform finish_early_events) = evaluating"
    and p: "pendingEvaluation (run_session example_plan typing_platform finish_early_events)
       = Some one_answer_record"
    using finish_early_run by blast+
  have e: "settles_with (evaluateSession example_plan one_answer_record RequestRejected) = None"
    by (simp add: evaluateSession_def one_answer_record_def Let_def)
  from evaluating_reaches_results [OF h, of RequestRejected] p e h
  show ?thesis by auto
qed


section \<open>Audio playback\<close>

lemma update_element_simps [simp]:
  "currentAudio (update_element i f s) = currentAudio s"
  "latestTtsRequestId (update_element i f s) = latestTtsRequestId s"
  "audioCache (update_element i f s) = audioCache s"
  "objectUrls (update_element i f s) = objectUrls s"
  "utterances (update_element i f s) = utterances s"
  "generateRequests (update_element i f s) = generateRequests s"
  "length (elements (update_element i f s)) = length (elements s)"
  by (simp_all add: update_element_def)

lemma elements_update_element:
  "j < length (elements s) \<Longrightarrow>
     elements (update_element i f s) ! j = (if j = i then f (elements s ! j) else elements s ! j)"
  by (simp add: update_element_def)

text \<open>The first half of stopAllAudio: the try block on the current element.\<close>

lemma stopAllAudio_split: "stopAllAudio br s = and_then (stop_current br) (cancel_speech br) s"
  by (cases "currentAudio s")
     (auto simp add: stopAllAudio_def stop_current_def cancel_speech_def and_then_def
      split: prod.splits bool.splits)

lemma stop_current_completes: "fst (stop_current br s) = True"
  by (simp add: stop_current_def skip_def try_catch_def and_then_def audio_pause_def
      audio_set_src_empty_def audio_removeAttribute_src_def set_currentAudio_def
      split: option.splits)

lemma cancel_speech_completes: "fst (cancel_speech br s) = True"
  by (simp add: cancel_speech_def skip_def try_catch_def speechSynthesis_cancel_def)

lemma stopAllAudio_completes: "fst (stopAllAudio br s) = True"
  using stop_current_completes [of br s]
    cancel_speech_completes [of br "snd (stop_current br s)"]
  by (cases "stop_current br s") (auto simp add: stopAllAudio_split and_then_def)

lemma stop_current_keeps [simp]:
  "latestTtsRequestId (snd (stop_current br s)) = latestTtsRequestId s"
  "audioCache (snd (stop_current br s)) = audioCache s"
  "objectUrls (snd (stop_current br s)) = objectUrls s"
  "generateRequests (snd (stop_current br s)) = generateRequests s"
  "utterances (snd (stop_current br s)) = utterances s"
  "length (elements (snd (stop_current br s))) = length (elements s)"
  by (simp_all add: stop_current_def skip_def try_catch_def and_then_def audio_pause_def
      audio_set_src_empty_def audio_removeAttribute_src_def set_currentAudio_def
      split: option.splits)

lemma cancel_speech_keeps [simp]:
  "latestTtsRequestId (snd (cancel_speech br s)) = latestTtsRequestId s"
  "audioCache (snd (cancel_speech br s)) = audioCache s"
  "objectUrls (snd (cancel_speech br s)) = objectUrls s"
  "generateRequests (snd (cancel_speech br s)) = generateRequests s"
  "elements (snd (cancel_speech br s)) = elements s"
  "currentAudio (snd (cancel_speech br s)) = currentAudio s"
  by (simp_all add: cancel_speech_def skip_def try_catch_def speechSynthesis_cancel_def)

lemma stopAllAudio_snd: "snd (stopAllAudio br s) = snd (cancel_speech br (snd (stop_current br s)))"
  using stop_current_completes [of br s]
  by (cases "stop_current br s") (auto simp add: stopAllAudio_split and_then_def)

lemma stopAllAudio_keeps [simp]:
  "latestTtsRequestId (snd (stopAllAudio br s)) = latestTtsRequestId s"
  "audioCache (snd (stopAllAudio br s)) = audioCache s"
  "objectUrls (snd (stopAllAudio br s)) = objectUrls s"
  "generateRequests (snd (stopAllAudio br s)) = generateRequests s"
  "length (elements (snd (stopAllAudio br s))) = length (elements s)"
  by (simp_all add: stopAllAudio_snd)


lemma stop_current_quiet:
  assumes "\<not> pause_throws br" "\<not> src_throws br" "\<not> removeAttribute_throws br"
  shows "snd (stop_current br s) =
     (case currentAudio s of
        None \<Rightarrow> s
      | Some i \<Rightarrow>
          (update_element i (\<lambda>a. a\<lparr>src := SrcAbsent\<rparr>)
            (update_element i (\<lambda>a. a\<lparr>src := SrcEmpty\<rparr>)
              (update_element i (\<lambda>a. a\<lparr>paused := True\<rparr>) s)))\<lparr>currentAudio := None\<rparr>)"
  using assms
  by (simp add: stop_current_def skip_def try_catch_def and_then_def audio_pause_def
      audio_set_src_empty_def audio_removeAttribute_src_def set_currentAudio_def
      split: option.splits)

lemma stop_current_idle: "currentAudio s = None \<Longrightarrow> snd (stop_current br s) = s"
  by (simp add: stop_current_def skip_def)

lemma stop_current_paused:
  assumes "\<not> pause_throws br" "currentAudio s = Some i" "i < length (elements s)"
  shows "paused (elements (snd (stop_current br s)) ! i)"
    and "currentAudio (snd (stop_current br s)) = None
         \<or> currentAudio (snd (stop_current br s)) = Some i"
  using assms
  by (auto simp add: stop_current_def skip_def try_catch_def and_then_def audio_pause_def
      audio_set_src_empty_def audio_removeAttribute_src_def set_currentAudio_def
      elements_update_element)

lemma stop_current_failed_pause:
  "pause_throws br \<Longrightarrow> snd (stop_current br s) = s"
  by (simp add: stop_current_def skip_def try_catch_def and_then_def audio_pause_def
      split: option.splits)

lemma cancel_speech_failed:
  "\<not> (hasWindow br \<and> hasSpeechSynthesis br) \<or> cancel_throws br
     \<Longrightarrow> snd (cancel_speech br s) = s"
  by (auto simp add: cancel_speech_def skip_def try_catch_def speechSynthesis_cancel_def)

text \<open>
  Claim C9, amended: \<^const>\<open>stopAllAudio\<close> completes normally in every state and whatever
  the media and speech operations do, also when they throw. When \<^verbatim>\<open>pause()\<close> does not
  throw, nothing is playing afterwards and the element that was current is paused; when none of
  the three media operations throws, no element is current afterwards and that element is
  detached from its source; when \<^verbatim>\<open>pause()\<close> throws, the handle and the elements are left as
  they were. When the cancel does not throw, no utterance is left; when it throws, the queue is
  left as it was. When nothing was current, no element is touched.
\<close>

theorem stopAllAudio_never_throws:
  "fst (stopAllAudio br s)
   \<and> (\<not> pause_throws br \<longrightarrow>
        \<not> isAudioPlaying (snd (stopAllAudio br s))
        \<and> (\<forall>i. currentAudio s = Some i \<and> i < length (elements s) \<longrightarrow>
              paused (elements (snd (stopAllAudio br s)) ! i)))
   \<and> (\<not> pause_throws br \<and> \<not> src_throws br \<and> \<not> removeAttribute_throws br \<longrightarrow>
        currentAudio (snd (stopAllAudio br s)) = None
        \<and> (\<forall>i. currentAudio s = Some i \<and> i < length (elements s) \<longrightarrow>
              src (elements (snd (stopAllAudio br s)) ! i) = SrcAbsent))
   \<and> (pause_throws br \<longrightarrow>
        currentAudio (snd (stopAllAudio br s)) = currentAudio s
        \<and> elements (snd (stopAllAudio br s)) = elements s)
   \<and> (hasWindow br \<and> hasSpeechSynthesis br \<and> \<not> cancel_throws br \<longrightarrow>
        utterances (snd (stopAllAudio br s)) = [])
   \<and> (cancel_throws br \<longrightarrow> utterances (snd (stopAllAudio br s)) = utterances s)
   \<and> (currentAudio s = None \<longrightarrow>
        currentAudio (snd (stopAllAudio br s)) = None
        \<and> elements (snd (stopAllAudio br s)) = elements s)"
proof -
  have 1: "fst (stopAllAudio br s)" by (simp add: stopAllAudio_completes)
  have 2: "\<not> isAudioPlaying (snd (stopAllAudio br s))
        \<and> (\<forall>i. currentAudio s = Some i \<and> i < length (elements s) \<longrightarrow>
              paused (elements (snd (stopAllAudio br s)) ! i))"
    if p: "\<not> pause_throws br"
  proof (cases "currentAudio s")
    case None
    then show ?thesis by (simp add: stopAllAudio_snd stop_current_idle isAudioPlaying_def)
  next
    case (Some i)
    show ?thesis
    proof (cases "i < length (elements s)")
      case True
      from stop_current_paused [OF p Some True] Some True show ?thesis
        by (auto simp add: stopAllAudio_snd isAudioPlaying_def)
    next
      case False
      have "currentAudio (snd (stop_current br s)) = None
         \<or> currentAudio (snd (stop_current br s)) = Some i"
        using p Some
        by (auto simp add: stop_current_def skip_def try_catch_def and_then_def audio_pause_def
            audio_set_src_empty_def audio_removeAttribute_src_def set_currentAudio_def)
      with False Some show ?thesis
        by (auto simp add: stopAllAudio_snd isAudioPlaying_def)
    qed
  qed
  have 3: "currentAudio (snd (stopAllAudio br s)) = None
        \<and> (\<forall>i. currentAudio s = Some i \<and> i < length (elements s) \<longrightarrow>
              src (elements (snd (stopAllAudio br s)) ! i) = SrcAbsent)"
    if "\<not> pause_throws br \<and> \<not> src_throws br \<and> \<not> removeAttribute_throws br"
    using that
    by (cases "currentAudio s")
       (simp_all add: stopAllAudio_snd stop_current_quiet elements_update_element)
  have 4: "currentAudio (snd (stopAllAudio br s)) = currentAudio s
        \<and> elements (snd (stopAllAudio br s)) = elements s"
    if "pause_throws br"
    using that by (simp add: stopAllAudio_snd stop_current_failed_pause)
  have 5: "utterances (snd (stopAllAudio br s)) = []"
    if "hasWindow br \<and> hasSpeechSynthesis br \<and> \<not> cancel_throws br"
    using that
    by (simp add: stopAllAudio_snd cancel_speech_def try_catch_def speechSynthesis_cancel_def)
  have 6: "utterances (snd (stopAllAudio br s)) = utterances s"
    if "cancel_throws br"
    using that by (simp add: stopAllAudio_snd cancel_speech_failed)
  have 7: "currentAudio (snd (stopAllAudio br s)) = None
        \<and> elements (snd (stopAllAudio br s)) = elements s"
    if "currentAudio s = None"
    using that by (simp add: stopAllAudio_snd stop_current_idle)
  from 1 2 3 4 5 6 7 show ?thesis by blast
qed

lemma start_playback_keeps [simp]:
  "latestTtsRequestId (fst (start_playback br url s)) = latestTtsRequestId s"
  "audioCache (fst (start_playback br url s)) = audioCache s"
  "objectUrls (fst (start_playback br url s)) = objectUrls s"
  "generateRequests (fst (start_playback br url s)) = generateRequests s"
  "currentAudio (fst (start_playback br url s)) = Some (length (elements s))"
  "snd (start_playback br url s) = length (elements s)"
  "elements (fst (start_playback br url s))
     = elements s @ [\<lparr>src = SrcUrl url, paused = \<not> play_allowed br\<rparr>]"
  by (simp_all add: start_playback_def Let_def)

lemma stopAllAudio_cases:
  obtains s' where "stopAllAudio br s = (True, s')" "s' = snd (stopAllAudio br s)"
  using stopAllAudio_completes [of br s] by (cases "stopAllAudio br s") auto

lemma catch_block_keeps [simp]:
  "latestTtsRequestId (fst (catch_block rid text br s)) = latestTtsRequestId s"
  "audioCache (fst (catch_block rid text br s)) = audioCache s"
  "objectUrls (fst (catch_block rid text br s)) = objectUrls s"
  "generateRequests (fst (catch_block rid text br s)) = generateRequests s"
proof -
  obtain s' where st: "stopAllAudio br s = (True, s')" and s': "s' = snd (stopAllAudio br s)"
    by (rule stopAllAudio_cases)
  have k: "latestTtsRequestId s' = latestTtsRequestId s" "audioCache s' = audioCache s"
    "objectUrls s' = objectUrls s" "generateRequests s' = generateRequests s"
    unfolding s' by simp_all
  show "latestTtsRequestId (fst (catch_block rid text br s)) = latestTtsRequestId s"
    "audioCache (fst (catch_block rid text br s)) = audioCache s"
    "objectUrls (fst (catch_block rid text br s)) = objectUrls s"
    "generateRequests (fst (catch_block rid text br s)) = generateRequests s"
    using k by (simp_all add: catch_block_def st)
qed

lemma catch_block_stale:
  "rid \<noteq> latestTtsRequestId s \<Longrightarrow> catch_block rid text br s = (s, Returned False)"
  by (simp add: catch_block_def)

lemma stop_and_play_fresh:
  "stop_and_play (latestTtsRequestId s) text url br s =
     (fst (start_playback br url (snd (stopAllAudio br s))),
      Suspended (AwaitPlay (latestTtsRequestId s) (length (elements s))))"
proof -
  obtain s' where st: "stopAllAudio br s = (True, s')" and s': "s' = snd (stopAllAudio br s)"
    by (rule stopAllAudio_cases)
  have k: "latestTtsRequestId s' = latestTtsRequestId s" "length (elements s') = length (elements s)"
    unfolding s' by simp_all
  show ?thesis
    using k by (simp add: stop_and_play_def st s' [symmetric] start_playback_def Let_def)
qed

lemma stop_and_play_keeps [simp]:
  "latestTtsRequestId (fst (stop_and_play rid text url br s)) = latestTtsRequestId s"
  "audioCache (fst (stop_and_play rid text url br s)) = audioCache s"
  "objectUrls (fst (stop_and_play rid text url br s)) = objectUrls s"
  "generateRequests (fst (stop_and_play rid text url br s)) = generateRequests s"
proof -
  obtain s' where st: "stopAllAudio br s = (True, s')" and s': "s' = snd (stopAllAudio br s)"
    by (rule stopAllAudio_cases)
  have k: "latestTtsRequestId s' = latestTtsRequestId s" "audioCache s' = audioCache s"
    "objectUrls s' = objectUrls s" "generateRequests s' = generateRequests s"
    unfolding s' by simp_all
  show "latestTtsRequestId (fst (stop_and_play rid text url br s)) = latestTtsRequestId s"
    "audioCache (fst (stop_and_play rid text url br s)) = audioCache s"
    "objectUrls (fst (stop_and_play rid text url br s)) = objectUrls s"
    "generateRequests (fst (stop_and_play rid text url br s)) = generateRequests s"
    using k by (simp_all add: stop_and_play_def st start_playback_def Let_def catch_block_stale)
qed

lemma playTextToSpeech_miss:
  "fmlookup (audioCache s) text = None \<Longrightarrow>
   playTextToSpeech text br s =
     (s\<lparr>latestTtsRequestId := latestTtsRequestId s + 1,
        generateRequests := generateRequests s @ [text]\<rparr>,
      Suspended (AwaitGenerate (latestTtsRequestId s + 1) text))"
  by (simp add: playTextToSpeech_def Let_def)

lemma playTextToSpeech_hit:
  "fmlookup (audioCache s) text = Some url \<Longrightarrow>
   playTextToSpeech text br s =
     (fst (start_playback br url
             (snd (stopAllAudio br (s\<lparr>latestTtsRequestId := latestTtsRequestId s + 1\<rparr>)))),
      Suspended (AwaitPlay (latestTtsRequestId s + 1) (length (elements s))))"
  using stop_and_play_fresh [of "s\<lparr>latestTtsRequestId := latestTtsRequestId s + 1\<rparr>" "text" url br]
  by (simp add: playTextToSpeech_def Let_def)

lemma playTextToSpeech_keeps:
  "latestTtsRequestId (fst (playTextToSpeech text br s)) = latestTtsRequestId s + 1"
  "audioCache (fst (playTextToSpeech text br s)) = audioCache s"
  "objectUrls (fst (playTextToSpeech text br s)) = objectUrls s"
  by (cases "fmlookup (audioCache s) text", simp_all add: playTextToSpeech_miss playTextToSpeech_hit)+

lemma resume_generate_stale:
  "rid \<noteq> latestTtsRequestId s \<Longrightarrow> resume_generate rid text response br s = (s, Returned False)"
  by (cases response) (simp_all add: resume_generate_def catch_block_stale)

lemma resume_generate_audio:
  assumes "data \<noteq> []" and "atob br data = Some binaryString"
  shows "resume_generate (latestTtsRequestId s) text (GenerateResponse (Some data)) br s =
     (let blob = \<lparr>blob_bytes = wav_header (length binaryString) @ map of_char binaryString,
                   blob_type = ''audio/wav''\<rparr>;
          s1 = s\<lparr>objectUrls := objectUrls s @ [blob],
                 audioCache := fmupd text (length (objectUrls s)) (audioCache s)\<rparr>
      in (fst (start_playback br (length (objectUrls s)) (snd (stopAllAudio br s1))),
          Suspended (AwaitPlay (latestTtsRequestId s) (length (elements s)))))"
proof -
  define blob where "blob = \<lparr>blob_bytes = wav_header (length binaryString) @ map of_char binaryString,
                   blob_type = ''audio/wav''\<rparr>"
  define s1 where "s1 = s\<lparr>objectUrls := objectUrls s @ [blob],
                 audioCache := fmupd text (length (objectUrls s)) (audioCache s)\<rparr>"
  have w: "createWavBlob (map of_char binaryString) = Some blob"
    by (simp add: createWavBlob_eq blob_def)
  have l: "latestTtsRequestId s1 = latestTtsRequestId s" "length (elements s1) = length (elements s)"
    by (simp_all add: s1_def)
  have "resume_generate (latestTtsRequestId s) text (GenerateResponse (Some data)) br s
      = stop_and_play (latestTtsRequestId s1) text (length (objectUrls s)) br s1"
    using assms w by (simp add: resume_generate_def base64ToUint8Array_def Let_def s1_def)
  also have "\<dots> = (fst (start_playback br (length (objectUrls s)) (snd (stopAllAudio br s1))),
          Suspended (AwaitPlay (latestTtsRequestId s1) (length (elements s1))))"
    by (rule stop_and_play_fresh)
  finally show ?thesis unfolding l by (simp add: Let_def s1_def blob_def)
qed

lemma resume_generate_cache:
  assumes k: "k |\<in>| fmdom (audioCache s)"
  shows "k |\<in>| fmdom (audioCache (fst (resume_generate rid text response br s)))"
proof (cases "rid = latestTtsRequestId s")
  case False
  then show ?thesis using k by (simp add: resume_generate_stale)
next
  case True
  show ?thesis
    using k True
    by (auto simp add: resume_generate_def Let_def
        split: tts_response.splits option.splits)
qed


lemma first_call_started_eq:
  "playTextToSpeech ''Question one'' example_browser initial_tts =
     (initial_tts\<lparr>latestTtsRequestId := 1, generateRequests := [''Question one'']\<rparr>,
      Suspended (AwaitGenerate 1 ''Question one''))"
  by (simp add: playTextToSpeech_miss initial_tts_def)

lemma first_call_started_state:
  "first_call_started =
     initial_tts\<lparr>latestTtsRequestId := 1, generateRequests := [''Question one'']\<rparr>"
  unfolding first_call_started_def first_call_started_eq by simp

lemma first_call_playing_eq:
  "resume_generate 1 ''Question one'' (GenerateResponse (Some ''AQI='')) example_browser
       first_call_started =
     (\<lparr>currentAudio = Some 0, latestTtsRequestId = 1,
       audioCache = fmupd ''Question one'' 0 fmempty,
       elements = [\<lparr>src = SrcUrl 0, paused = False\<rparr>],
       objectUrls = [\<lparr>blob_bytes = wav_header 2 @ [1, 2], blob_type = ''audio/wav''\<rparr>],
       utterances = [], generateRequests = [''Question one'']\<rparr>,
      Suspended (AwaitPlay 1 0))"
  unfolding first_call_started_state
  by (simp add: resume_generate_def
      base64ToUint8Array_def createWavBlob_eq stop_and_play_def example_browser_def
      initial_tts_def stopAllAudio_def and_then_def try_catch_def skip_def
      speechSynthesis_cancel_def start_playback_def Let_def)
     (simp add: numeral_2_eq_2)

lemma second_call_started_eq:
  "playTextToSpeech ''Question two'' example_browser first_call_playing =
     (\<lparr>currentAudio = Some 0, latestTtsRequestId = 2,
       audioCache = fmupd ''Question one'' 0 fmempty,
       elements = [\<lparr>src = SrcUrl 0, paused = False\<rparr>],
       objectUrls = [\<lparr>blob_bytes = wav_header 2 @ [1, 2], blob_type = ''audio/wav''\<rparr>],
       utterances = [], generateRequests = [''Question one'', ''Question two'']\<rparr>,
      Suspended (AwaitGenerate 2 ''Question two''))"
  unfolding first_call_playing_def first_call_playing_eq fst_conv
  by (simp add: playTextToSpeech_miss)

text \<open>
  Claim C1, as stated, fails when the first call is overtaken while it awaits its own
  \<^verbatim>\<open>audio.play()\<close>: call 1 synthesizes and starts playing, call 2 (another text, not
  cached) is issued and waits for the network, then the \<^verbatim>\<open>play()\<close> of call 1 resolves and
  call 1 returns \<open>true\<close> although the latest id is 2.
\<close>

theorem stale_play_returns_true:
  "snd (playTextToSpeech ''Question one'' example_browser initial_tts)
     = Suspended (AwaitGenerate 1 ''Question one'')
   \<and> snd (resume_generate 1 ''Question one'' (GenerateResponse (Some ''AQI='')) example_browser
            first_call_started)
     = Suspended (AwaitPlay 1 0)
   \<and> snd (playTextToSpeech ''Question two'' example_browser first_call_playing)
     = Suspended (AwaitGenerate 2 ''Question two'')
   \<and> latestTtsRequestId second_call_started = 2
   \<and> resume_play True second_call_started = (second_call_started, Returned True)"
  unfolding first_call_started_eq first_call_playing_eq second_call_started_def
    second_call_started_eq
  by (simp add: resume_play_def)

text \<open>
  Claim C1, amended: a call that resumes from the remote synthesis request with an id that
  is no longer the latest changes nothing (it starts no playback, sets no handle, caches
  nothing) and returns \<open>false\<close>, whether the request succeeded or failed; this is the case
  whenever another call was issued while it waited. A call that resumes from its
  \<^verbatim>\<open>audio.play()\<close> changes nothing either and returns whether that play started. A
  synthesis result changes the state only if its id is the latest issued.
\<close>

theorem stale_synthesis_is_dropped:
  "(requestId \<noteq> latestTtsRequestId s \<longrightarrow>
      resume_generate requestId text response br s = (s, Returned False))
   \<and> (playTextToSpeech text1 br1 s0 = (s1, Suspended (AwaitGenerate requestId text1))
        \<and> playTextToSpeech text2 br2 s1 = (s2, p2) \<longrightarrow>
      requestId = latestTtsRequestId s1
      \<and> latestTtsRequestId s2 = requestId + 1
      \<and> resume_generate requestId text1 response br s2 = (s2, Returned False))
   \<and> resume_play resolved s = (s, Returned resolved)
   \<and> (fst (resume_generate requestId text response br s) \<noteq> s \<longrightarrow>
        requestId = latestTtsRequestId s)"
proof -
  have 2: "requestId = latestTtsRequestId s1
      \<and> latestTtsRequestId s2 = requestId + 1
      \<and> resume_generate requestId text1 response br s2 = (s2, Returned False)"
    if a: "playTextToSpeech text1 br1 s0 = (s1, Suspended (AwaitGenerate requestId text1))"
      and b: "playTextToSpeech text2 br2 s1 = (s2, p2)"
  proof -
    have miss: "fmlookup (audioCache s0) text1 = None"
    proof (cases "fmlookup (audioCache s0) text1")
      case (Some url)
      from playTextToSpeech_hit [OF this, of br1] a show ?thesis by simp
    qed simp
    from playTextToSpeech_miss [OF miss, of br1] a
    have r: "requestId = latestTtsRequestId s0 + 1" and s1: "latestTtsRequestId s1 = latestTtsRequestId s0 + 1"
      by auto
    from playTextToSpeech_keeps(1) [of text2 br2 s1] b
    have s2: "latestTtsRequestId s2 = latestTtsRequestId s1 + 1" by simp
    from r s1 s2 have "requestId \<noteq> latestTtsRequestId s2" by simp
    from resume_generate_stale [OF this] r s1 s2 show ?thesis by simp
  qed
  have 4: "requestId = latestTtsRequestId s"
    if "fst (resume_generate requestId text response br s) \<noteq> s"
    using that resume_generate_stale [of requestId s "text" response br] by (metis fst_conv)
  have 1: "resume_generate requestId text response br s = (s, Returned False)"
    if "requestId \<noteq> latestTtsRequestId s"
    using that by (rule resume_generate_stale)
  have 3: "resume_play resolved s = (s, Returned resolved)"
    by (simp add: resume_play_def)
  from 1 2 3 4 show ?thesis by blast
qed

theorem stale_synthesis_is_dropped_witness:
  "playTextToSpeech ''Question one'' example_browser initial_tts
     = (first_call_started, Suspended (AwaitGenerate 1 ''Question one''))
   \<and> playTextToSpeech ''Question two'' example_browser first_call_started
     = (fst (playTextToSpeech ''Question two'' example_browser first_call_started),
        Suspended (AwaitGenerate 2 ''Question two''))
   \<and> 1 \<noteq> latestTtsRequestId (fst (playTextToSpeech ''Question two'' example_browser first_call_started))
   \<and> resume_generate 1 ''Question one'' (GenerateResponse (Some ''AQI='')) example_browser
         (fst (playTextToSpeech ''Question two'' example_browser first_call_started))
     = (fst (playTextToSpeech ''Question two'' example_browser first_call_started), Returned False)
   \<and> fst (resume_generate 1 ''Question one'' (GenerateResponse (Some ''AQI='')) example_browser
            first_call_started) \<noteq> first_call_started
   \<and> 1 = latestTtsRequestId first_call_started"
proof -
  define s2 where "s2 = fst (playTextToSpeech ''Question two'' example_browser first_call_started)"
  have a: "playTextToSpeech ''Question one'' example_browser initial_tts
     = (first_call_started, Suspended (AwaitGenerate 1 ''Question one''))"
    by (simp add: first_call_started_def first_call_started_eq)
  have b: "playTextToSpeech ''Question two'' example_browser first_call_started
     = (s2, Suspended (AwaitGenerate 2 ''Question two''))"
    unfolding s2_def first_call_started_state
    by (simp add: playTextToSpeech_miss initial_tts_def)
  have c: "fst (resume_generate 1 ''Question one'' (GenerateResponse (Some ''AQI='')) example_browser
            first_call_started) \<noteq> first_call_started"
    unfolding first_call_playing_eq fst_conv
    by (simp add: first_call_started_state initial_tts_def)
  note inst = stale_synthesis_is_dropped
         [of 1 first_call_started "''Question one''" "GenerateResponse (Some ''AQI='')"
             example_browser "''Question one''" example_browser initial_tts first_call_started
             "''Question two''" example_browser s2 "Suspended (AwaitGenerate 2 ''Question two'')"
             True]
  from inst a b have r: "latestTtsRequestId s2 = 1 + 1"
    "resume_generate 1 ''Question one'' (GenerateResponse (Some ''AQI='')) example_browser s2
       = (s2, Returned False)"
    by blast+
  from r(1) have ne: "1 \<noteq> latestTtsRequestId s2" by simp
  from inst c have l: "1 = latestTtsRequestId first_call_started" by blast
  from a b c r(2) ne l show ?thesis unfolding s2_def [symmetric] by blast
qed


text \<open>
  Claim C8: when a text that is not cached is played, one request goes to the remote speech
  model; once its audio has arrived (and no other call was issued meanwhile) the container built
  from it is registered and cached under exactly that text; a second call with the same text
  finds it, sends no request, and plays the cached resource, so that both calls together sent
  exactly one request. No operation removes a key from the cache.
\<close>

theorem second_play_uses_cache:
  assumes miss: "fmlookup (audioCache s) text = None"
    and first: "playTextToSpeech text br1 s = (s1, p1)"
    and data: "data \<noteq> []" "atob br2 data = Some binaryString"
    and synthesized: "resume_generate (latestTtsRequestId s1) text (GenerateResponse (Some data)) br2 s1
            = (s2, p2)"
    and second: "playTextToSpeech text br3 s2 = (s3, p3)"
  shows "p1 = Suspended (AwaitGenerate (latestTtsRequestId s1) text)
    \<and> generateRequests s1 = generateRequests s @ [text]
    \<and> fmlookup (audioCache s2) text = Some (length (objectUrls s))
    \<and> (\<forall>other. other \<noteq> text \<longrightarrow>
          fmlookup (audioCache s2) other = fmlookup (audioCache s) other)
    \<and> createWavBlob (map of_char binaryString) = Some (objectUrls s2 ! length (objectUrls s))
    \<and> p3 = Suspended (AwaitPlay (latestTtsRequestId s3) (length (elements s2)))
    \<and> currentAudio s3 = Some (length (elements s2))
    \<and> src (elements s3 ! length (elements s2)) = SrcUrl (length (objectUrls s))
    \<and> generateRequests s3 = generateRequests s @ [text]
    \<and> fmdom (audioCache s) |\<subseteq>| fmdom (audioCache s3)
    \<and> fmdom (audioCache x) |\<subseteq>| fmdom (audioCache (fst (playTextToSpeech t b x)))
    \<and> fmdom (audioCache x) |\<subseteq>| fmdom (audioCache (fst (resume_generate r t response b x)))
    \<and> audioCache (fst (resume_play resolved x)) = audioCache x
    \<and> audioCache (snd (stopAllAudio b x)) = audioCache x"
proof -
  from playTextToSpeech_miss [OF miss, of br1] first
  have s1: "s1 = s\<lparr>latestTtsRequestId := latestTtsRequestId s + 1,
                    generateRequests := generateRequests s @ [text]\<rparr>"
    and p1: "p1 = Suspended (AwaitGenerate (latestTtsRequestId s + 1) text)" by simp_all
  define blob where "blob = \<lparr>blob_bytes = wav_header (length binaryString) @ map of_char binaryString,
                   blob_type = ''audio/wav''\<rparr>"
  define c where "c = s1\<lparr>objectUrls := objectUrls s1 @ [blob],
                 audioCache := fmupd text (length (objectUrls s1)) (audioCache s1)\<rparr>"
  from resume_generate_audio [OF data, of s1 "text"] synthesized
  have s2: "s2 = fst (start_playback br2 (length (objectUrls s1)) (snd (stopAllAudio br2 c)))"
    by (simp add: Let_def c_def blob_def)
  have cache2: "audioCache s2 = fmupd text (length (objectUrls s)) (audioCache s)"
    and urls2: "objectUrls s2 = objectUrls s @ [blob]"
    and req2: "generateRequests s2 = generateRequests s @ [text]"
    and latest2: "latestTtsRequestId s2 = latestTtsRequestId s + 1"
    by (simp_all add: s2 c_def s1)
  have hit: "fmlookup (audioCache s2) text = Some (length (objectUrls s))"
    by (simp add: cache2)
  have others: "\<forall>other. other \<noteq> text \<longrightarrow>
          fmlookup (audioCache s2) other = fmlookup (audioCache s) other"
    by (simp add: cache2)
  define d where "d = snd (stopAllAudio br3 (s2\<lparr>latestTtsRequestId := latestTtsRequestId s2 + 1\<rparr>))"
  from playTextToSpeech_hit [OF hit, of br3] second
  have s3: "s3 = fst (start_playback br3 (length (objectUrls s)) d)"
    and p3: "p3 = Suspended (AwaitPlay (latestTtsRequestId s2 + 1) (length (elements s2)))"
    by (simp_all add: d_def)
  have ld: "length (elements d) = length (elements s2)"
    and latestd: "latestTtsRequestId d = latestTtsRequestId s2 + 1"
    and reqd: "generateRequests d = generateRequests s2"
    and cached: "audioCache d = audioCache s2"
    by (simp_all add: d_def)
  have w: "createWavBlob (map of_char binaryString) = Some (objectUrls s2 ! length (objectUrls s))"
    by (simp add: urls2 createWavBlob_eq blob_def)
  have e3: "src (elements s3 ! length (elements s2)) = SrcUrl (length (objectUrls s))"
    by (simp add: s3 ld [symmetric])
  have c3: "currentAudio s3 = Some (length (elements s2))"
    by (simp add: s3 ld)
  have l3: "latestTtsRequestId s3 = latestTtsRequestId s2 + 1"
    by (simp add: s3 latestd)
  have r3: "generateRequests s3 = generateRequests s @ [text]"
    by (simp add: s3 reqd req2)
  have k3: "fmdom (audioCache s) |\<subseteq>| fmdom (audioCache s3)"
    by (auto simp add: s3 cached cache2)
  have g1: "fmdom (audioCache x) |\<subseteq>| fmdom (audioCache (fst (playTextToSpeech t b x)))"
    by (simp add: playTextToSpeech_keeps)
  have g2: "fmdom (audioCache x) |\<subseteq>| fmdom (audioCache (fst (resume_generate r t response b x)))"
    using resume_generate_cache [of _ x r t response b] by blast
  have g3: "audioCache (fst (resume_play resolved x)) = audioCache x"
    by (simp add: resume_play_def)
  have g4: "audioCache (snd (stopAllAudio b x)) = audioCache x" by simp
  from p1 s1 have p1': "p1 = Suspended (AwaitGenerate (latestTtsRequestId s1) text)" by simp
  from p3 l3 have p3': "p3 = Suspended (AwaitPlay (latestTtsRequestId s3) (length (elements s2)))"
    by simp
  from s1 have r1: "generateRequests s1 = generateRequests s @ [text]" by simp
  from p1' r1 hit others w p3' c3 e3 r3 k3 g1 g2 g3 g4 show ?thesis by blast
qed


theorem second_play_uses_cache_witness:
  "fmlookup (audioCache initial_tts) ''Question one'' = None
   \<and> playTextToSpeech ''Question one'' example_browser initial_tts
       = (first_call_started, Suspended (AwaitGenerate 1 ''Question one''))
   \<and> ''AQI='' \<noteq> [] \<and> atob example_browser ''AQI='' = Some [CHR 0x01, CHR 0x02]
   \<and> resume_generate (latestTtsRequestId first_call_started) ''Question one''
         (GenerateResponse (Some ''AQI='')) example_browser first_call_started
       = (first_call_playing, Suspended (AwaitPlay 1 0))
   \<and> snd (playTextToSpeech ''Question one'' example_browser first_call_playing)
       = Suspended (AwaitPlay 2 1)
   \<and> generateRequests (fst (playTextToSpeech ''Question one'' example_browser first_call_playing))
       = generateRequests initial_tts @ [''Question one'']
   \<and> fmlookup (audioCache first_call_playing) ''Question one'' = Some 0"
proof -
  define s3 where "s3 = fst (playTextToSpeech ''Question one'' example_browser first_call_playing)"
  define p3 where "p3 = snd (playTextToSpeech ''Question one'' example_browser first_call_playing)"
  have miss: "fmlookup (audioCache initial_tts) ''Question one'' = None"
    by (simp add: initial_tts_def)
  have first: "playTextToSpeech ''Question one'' example_browser initial_tts
       = (first_call_started, Suspended (AwaitGenerate 1 ''Question one''))"
    by (simp add: first_call_started_def first_call_started_eq)
  have data: "''AQI='' \<noteq> []" "atob example_browser ''AQI='' = Some [CHR 0x01, CHR 0x02]"
    by (simp_all add: example_browser_def)
  have l: "latestTtsRequestId first_call_started = 1"
    by (simp add: first_call_started_state)
  have synthesized: "resume_generate (latestTtsRequestId first_call_started) ''Question one''
         (GenerateResponse (Some ''AQI='')) example_browser first_call_started
       = (first_call_playing, Suspended (AwaitPlay 1 0))"
    unfolding l first_call_playing_def first_call_playing_eq by simp
  have second: "playTextToSpeech ''Question one'' example_browser first_call_playing = (s3, p3)"
    by (simp add: s3_def p3_def)
  have st: "latestTtsRequestId first_call_playing = 1" "length (elements first_call_playing) = 1"
    "objectUrls initial_tts = []"
    unfolding first_call_playing_def first_call_playing_eq by (simp_all add: initial_tts_def)
  from playTextToSpeech_keeps(1) [of "''Question one''" example_browser first_call_playing] st
  have l3: "latestTtsRequestId s3 = 2" by (simp add: s3_def)
  note inst = second_play_uses_cache [OF miss first data synthesized second]
  from inst have "p3 = Suspended (AwaitPlay (latestTtsRequestId s3) (length (elements first_call_playing)))"
    and r: "generateRequests s3 = generateRequests initial_tts @ [''Question one'']"
    and c: "fmlookup (audioCache first_call_playing) ''Question one'' = Some (length (objectUrls initial_tts))"
    by blast+
  then have p: "p3 = Suspended (AwaitPlay 2 1)" by (simp add: l3 st)
  from c st have c': "fmlookup (audioCache first_call_playing) ''Question one'' = Some 0" by simp
  from miss first data synthesized p r c'
  show ?thesis unfolding s3_def p3_def by blast
qed

lemma fallback_speaking_eq:
  "fallback_speaking =
     initial_tts\<lparr>latestTtsRequestId := 1, generateRequests := [''Question one''],
       utterances := [\<lparr>utterance_text = ''Question one'', utterance_lang = ''en-GB''\<rparr>]\<rparr>"
  unfolding fallback_speaking_def first_call_started_state
  by (simp add: resume_generate_def catch_block_def example_browser_def initial_tts_def
      stopAllAudio_def and_then_def try_catch_def skip_def speechSynthesis_cancel_def)

text \<open>
  Claim C9, as stated, fails when the operations it names throw: with a \<^verbatim>\<open>pause()\<close> that
  throws, \<^const>\<open>stopAllAudio\<close> completes, and the element that was playing is still playing
  and still current; with a \<^verbatim>\<open>cancel()\<close> that throws it completes, and the utterance of
  the local voice is still queued.
\<close>

theorem failed_stop_leaves_sound:
  "isAudioPlaying first_call_playing
   \<and> fst (stopAllAudio failing_pause_browser first_call_playing)
   \<and> isAudioPlaying (snd (stopAllAudio failing_pause_browser first_call_playing))
   \<and> currentAudio (snd (stopAllAudio failing_pause_browser first_call_playing)) = Some 0
   \<and> utterances fallback_speaking
       = [\<lparr>utterance_text = ''Question one'', utterance_lang = ''en-GB''\<rparr>]
   \<and> fst (stopAllAudio failing_cancel_browser fallback_speaking)
   \<and> utterances (snd (stopAllAudio failing_cancel_browser fallback_speaking))
       = [\<lparr>utterance_text = ''Question one'', utterance_lang = ''en-GB''\<rparr>]"
  unfolding first_call_playing_def first_call_playing_eq fst_conv fallback_speaking_eq
  by (simp add: isAudioPlaying_def stopAllAudio_def and_then_def try_catch_def skip_def
      audio_pause_def speechSynthesis_cancel_def failing_pause_browser_def
      failing_cancel_browser_def example_browser_def initial_tts_def)

theorem stopAllAudio_never_throws_witness:
  "\<not> pause_throws example_browser \<and> \<not> src_throws example_browser
   \<and> \<not> removeAttribute_throws example_browser
   \<and> hasWindow example_browser \<and> hasSpeechSynthesis example_browser
   \<and> \<not> cancel_throws example_browser
   \<and> currentAudio first_call_playing = Some 0 \<and> 0 < length (elements first_call_playing)
   \<and> isAudioPlaying first_call_playing
   \<and> fst (stopAllAudio example_browser first_call_playing)
   \<and> \<not> isAudioPlaying (snd (stopAllAudio example_browser first_call_playing))
   \<and> paused (elements (snd (stopAllAudio example_browser first_call_playing)) ! 0)
   \<and> src (elements (snd (stopAllAudio example_browser first_call_playing)) ! 0) = SrcAbsent
   \<and> currentAudio (snd (stopAllAudio example_browser first_call_playing)) = None
   \<and> utterances (snd (stopAllAudio example_browser first_call_playing)) = []
   \<and> currentAudio initial_tts = None
   \<and> fst (stopAllAudio example_browser initial_tts)
   \<and> elements (snd (stopAllAudio example_browser initial_tts)) = elements initial_tts
   \<and> pause_throws failing_pause_browser
   \<and> elements (snd (stopAllAudio failing_pause_browser first_call_playing))
       = elements first_call_playing
   \<and> cancel_throws failing_cancel_browser
   \<and> utterances (snd (stopAllAudio failing_cancel_browser fallback_speaking))
       = utterances fallback_speaking"
proof -
  have b: "\<not> pause_throws example_browser"
    "\<not> pause_throws example_browser \<and> \<not> src_throws example_browser
      \<and> \<not> removeAttribute_throws example_browser"
    "hasWindow example_browser \<and> hasSpeechSynthesis example_browser \<and> \<not> cancel_throws example_browser"
    "pause_throws failing_pause_browser" "cancel_throws failing_cancel_browser"
    by (simp_all add: example_browser_def failing_pause_browser_def failing_cancel_browser_def)
  have s: "currentAudio first_call_playing = Some 0 \<and> 0 < length (elements first_call_playing)"
    "isAudioPlaying first_call_playing"
    unfolding first_call_playing_def first_call_playing_eq
    by (simp_all add: isAudioPlaying_def)
  have i: "currentAudio initial_tts = None" by (simp add: initial_tts_def)
  from stopAllAudio_never_throws [of example_browser first_call_playing] b(1,2,3) s(1)
  have 1: "fst (stopAllAudio example_browser first_call_playing)"
    "\<not> isAudioPlaying (snd (stopAllAudio example_browser first_call_playing))"
    "paused (elements (snd (stopAllAudio example_browser first_call_playing)) ! 0)"
    "src (elements (snd (stopAllAudio example_browser first_call_playing)) ! 0) = SrcAbsent"
    "currentAudio (snd (stopAllAudio example_browser first_call_playing)) = None"
    "utterances (snd (stopAllAudio example_browser first_call_playing)) = []"
    by blast+
  from stopAllAudio_never_throws [of example_browser initial_tts] i
  have 2: "fst (stopAllAudio example_browser initial_tts)"
    "elements (snd (stopAllAudio example_browser initial_tts)) = elements initial_tts"
    by blast+
  from stopAllAudio_never_throws [of failing_pause_browser first_call_playing] b(4)
  have 3: "elements (snd (stopAllAudio failing_pause_browser first_call_playing))
       = elements first_call_playing"
    by blast
  from stopAllAudio_never_throws [of failing_cancel_browser fallback_speaking] b(5)
  have 4: "utterances (snd (stopAllAudio failing_cancel_browser fallback_speaking))
       = utterances fallback_speaking"
    by blast
  from b s i 1 2 3 4 show ?thesis by (simp only: simp_thms)
qed

end
